theory Spec2Isabelle
  imports Complex_Main "HOL-Library.Word"
begin

section \<open>Cloud formation: the particle model of cloudformationsimulation.cpp\<close>

text \<open>
  The program keeps every quantity of the simulation in a C++ \<^verbatim>\<open>float\<close>. The
  embedding reads a \<^verbatim>\<open>float\<close> as a real number: \<open>+\<close>, \<open>-\<close>, \<open>*\<close> and the
  comparisons are the exact ones, a decimal literal such as \<^verbatim>\<open>0.18f\<close> is the decimal
  it is written as, and \<^verbatim>\<open>std::pow\<close>, \<^verbatim>\<open>std::sin\<close> and \<^verbatim>\<open>std::cos\<close> are the real
  functions. Overflow and NaN are outside this model. The one place
  where the source can divide by zero (the viewport height, in \<open>updatePuffs\<close>) is
  written out with the value that IEEE arithmetic and \<open>clampf\<close> give there, because
  HOL's \<open>x / 0 = 0\<close> is not what the program computes.

  Rounding is left out where it only moves a position, a radius, a rate or a colour in
  its last bit. It is kept where it decides how many puffs are spawned: the frame time
  \<open>dt\<close>, the spawn credit of the emitters and the threshold of the mid-level seed are
  computed in binary32, every operation rounded to nearest, ties to even (\<open>fl32\<close>), as
  the source's \<^verbatim>\<open>float\<close> arithmetic does. The credit reads the rate of its emitter
  as the binary32 number nearest to the modelled rate: \<open>4.0f\<close> and \<open>3.2f\<close> at the start.

  An \<^verbatim>\<open>int\<close> of the source is an \<open>int\<close> here (the program does no integer
  arithmetic that could overflow: a width or height is only converted to float), and
  the \<^verbatim>\<open>Uint32\<close> millisecond counter of SDL is a \<open>32 word\<close>.

  \<^verbatim>\<open>rand()\<close> is a global generator seeded from the clock. The embedding passes the
  generator explicitly: an \<open>rng\<close> is the sequence of values that the coming calls of
  \<open>frand\<close> return.

  The calls into OpenGL and SDL (window, context, blending state, buffer swap) are not
  modelled; \<open>drawSoftBlob\<close> returns the list of triangle fans that it submits.
\<close>

subsection \<open>Tiny helpers\<close>

type_synonym rng = "nat \<Rightarrow> real"

definition frand :: "rng \<Rightarrow> real \<times> rng" where
  "frand g = (g 0, \<lambda>n. g (Suc n))"

definition clampf :: "real \<Rightarrow> real \<Rightarrow> real \<Rightarrow> real" where
  "clampf x a b = max a (min b x)"

subsection \<open>Binary32 arithmetic\<close>

text \<open>Rounding to the nearest integer, a tie to the even one.\<close>

definition round_even :: "real \<Rightarrow> int" where
  "round_even x =
     (let f = \<lfloor>x\<rfloor>; d = x - of_int f
      in if d < 1 / 2 then f else if 1 / 2 < d then f + 1 else if even f then f else f + 1)"

definition pow2 :: "int \<Rightarrow> real" where
  "pow2 e = (if 0 \<le> e then 2 ^ nat e else 1 / 2 ^ nat (- e))"

text \<open>
  The exponent \<open>e\<close> of the last bit of the binary32 significand of \<open>x\<close>: the 24 bits
  hold \<open>\<bar>x\<bar> / 2 ^ e\<close>, so \<open>2 ^ 23 \<le> \<bar>x\<bar> / 2 ^ e < 2 ^ 24\<close> for a normal number;
  \<open>e\<close> is \<open>-149\<close> for the subnormal ones and for zero. The search stops at \<open>104\<close>, the last
  bit of the largest finite number: the overflow to infinity is not modelled.
\<close>

function expo_up :: "real \<Rightarrow> int \<Rightarrow> int" where
  "expo_up x e = (if e < 104 \<and> 16777216 * pow2 e \<le> \<bar>x\<bar> then expo_up x (e + 1) else e)"
  by pat_completeness auto
termination
  by (relation "measure (\<lambda>(x, e). nat (104 - e))") auto

function expo_down :: "real \<Rightarrow> int \<Rightarrow> int" where
  "expo_down x e = (if - 149 < e \<and> \<bar>x\<bar> < 8388608 * pow2 e then expo_down x (e - 1) else e)"
  by pat_completeness auto
termination
  by (relation "measure (\<lambda>(x, e). nat (e + 149))") auto

text \<open>The two searches are unfolded step by step, on a concrete number only.\<close>

declare expo_up.simps [simp del] expo_down.simps [simp del]

definition quantum_exp :: "real \<Rightarrow> int" where
  "quantum_exp x = (if 16777216 \<le> \<bar>x\<bar> then expo_up x 0 else expo_down x 0)"

text \<open>The binary32 number nearest to \<open>x\<close>, ties to even: the result of one float operation
  whose exact result is \<open>x\<close>, and the value of a literal \<open>x\<close> with the suffix \<open>f\<close>.\<close>

definition fl32 :: "real \<Rightarrow> real" where
  "fl32 x = of_int (round_even (x / pow2 (quantum_exp x))) * pow2 (quantum_exp x)"

subsection \<open>The soft blob\<close>

text \<open>
  One \<^verbatim>\<open>glDrawArrays(GL_TRIANGLE_FAN, ...)\<close> call: the vertex array \<open>v\<close> (x and y
  alternating, the centre first) and the colour set by \<^verbatim>\<open>glColor4f\<close>.
\<close>

record Fan =
  fan_v :: "real list"
  fan_rgb :: "real \<times> real \<times> real"
  fan_a :: real

definition slices :: int where
  "slices = 32"

text \<open>The vertex array of one disc: the inner loop over \<open>s = 0 .. slices\<close>.\<close>

definition fan_vertices :: "real \<Rightarrow> real \<Rightarrow> real \<Rightarrow> real list" where
  "fan_vertices cx cy r =
     [cx, cy] @ concat (map (\<lambda>s. let ang = real_of_int s / real_of_int slices * 2 * pi
                                  in [cx + r * cos ang, cy + r * sin ang]) [0..slices])"

text \<open>The body of the loop over the rings, for ring \<open>i\<close>.\<close>

definition ring_t :: "int \<Rightarrow> int \<Rightarrow> real" where
  "ring_t i rings = real_of_int (i + 1) / real_of_int rings"

definition ring :: "real \<Rightarrow> real \<Rightarrow> real \<Rightarrow> real \<times> real \<times> real \<Rightarrow> real \<Rightarrow> int \<Rightarrow> int \<Rightarrow> Fan" where
  "ring cx cy R rgb alphaPeak rings i =
     (let t = ring_t i rings;
          r = t * R;
          a = alphaPeak * ((1 - t) powr 1.6)
      in \<lparr>fan_v = fan_vertices cx cy r, fan_rgb = rgb, fan_a = a\<rparr>)"

definition drawSoftBlob :: "real \<Rightarrow> real \<Rightarrow> real \<Rightarrow> real \<times> real \<times> real \<Rightarrow> real \<Rightarrow> int \<Rightarrow> Fan list" where
  "drawSoftBlob cx cy R rgb alphaPeak rings = map (ring cx cy R rgb alphaPeak rings) [0..rings - 1]"

subsection \<open>Puffs and emitters\<close>

text \<open>
  The fields \<open>x\<close>, \<open>y\<close>, \<open>r\<close> of \<open>Puff\<close> and \<open>y\<close> of \<open>Emitter\<close> carry a prefix
  (\<open>p_x\<close>, \<open>p_y\<close>, \<open>p_r\<close>, \<open>e_y\<close>): a record field is a constant, and the two \<open>y\<close>
  would clash. The other fields keep their names.
\<close>

record Puff =
  p_x :: real
  p_y :: real
  p_r :: real
  vx :: real
  vy :: real
  growth :: real
  wobble :: real
  life :: real
  maxLife :: real
  whiten :: real

record Emitter =
  x0 :: real
  x1 :: real
  e_y :: real
  rate :: real

text \<open>
  \<open>spawnPuff\<close> draws eight random numbers, one statement after the other, and appends
  the new puff to the vector.
\<close>

definition spawnPuff :: "Puff list \<Rightarrow> Emitter \<Rightarrow> int \<Rightarrow> int \<Rightarrow> rng \<Rightarrow> Puff list \<times> rng" where
  "spawnPuff P E winW winH g0 =
     (let (f1, g1) = frand g0;
          (f2, g2) = frand g1;
          (f3, g3) = frand g2;
          (f4, g4) = frand g3;
          (f5, g5) = frand g4;
          (f6, g6) = frand g5;
          (f7, g7) = frand g6;
          (f8, g8) = frand g7;
          p = \<lparr>p_x = x0 E + f1 * (x1 E - x0 E),
               p_y = e_y E + f2 * 10,
               p_r = 12 + f3 * 10,
               vx = (f4 - 0.5) * 8,
               vy = 12 + f5 * 10,
               growth = 3 + f6 * 6,
               wobble = (f7 * 2 - 1) * 0.8,
               life = 0,
               maxLife = 18 + f8 * 8,
               whiten = 0.2\<rparr>
      in (P @ [p], g8))"

text \<open>
  \<open>heightNorm = clampf(p.y / (float)winH, 0.f, 1.f)\<close>. With \<open>winH = 0\<close> the float
  quotient is \<open>-inf\<close> for a negative \<open>y\<close>, \<open>+inf\<close> for a positive one and NaN for zero;
  \<open>std::max(0.f, std::min(1.f, q))\<close> then returns 0, 1 and 1 (both comparisons with a
  NaN are false, so \<open>std::min\<close> returns its first argument 1).
\<close>

definition heightNorm :: "real \<Rightarrow> int \<Rightarrow> real" where
  "heightNorm y winH =
     (if winH = 0 then (if y < 0 then 0 else 1)
      else clampf (y / real_of_int winH) 0 1)"

text \<open>The horizontal position after advection, before the wrap test.\<close>

definition advect_x :: "real \<Rightarrow> real \<Rightarrow> Puff \<Rightarrow> real" where
  "advect_x dt breeze p =
     (let life' = life p + dt;
          vx' = vx p + (breeze - vx p) * 0.05
      in p_x p + (vx' + wobble p * sin (2 * life')) * dt)"

text \<open>The two wrap tests, one after the other.\<close>

definition wrap_x :: "int \<Rightarrow> real \<Rightarrow> real" where
  "wrap_x winW x =
     (let xa = (if x < - 100 then x + (real_of_int winW + 200) else x)
      in if xa > real_of_int winW + 100 then xa - (real_of_int winW + 200) else xa)"

text \<open>The body of the loop of \<open>updatePuffs\<close> over the puffs.\<close>

definition updatePuff :: "real \<Rightarrow> real \<Rightarrow> int \<Rightarrow> int \<Rightarrow> Puff \<Rightarrow> Puff" where
  "updatePuff dt breeze winW winH p =
     (let life' = life p + dt;
          hn = heightNorm (p_y p) winH;
          up = 1 - 0.4 * hn;
          vy' = 10 * up + 8;
          vx' = vx p + (breeze - vx p) * 0.05;
          x' = p_x p + (vx' + wobble p * sin (2 * life')) * dt;
          y' = p_y p + vy' * dt;
          r' = p_r p + growth p * dt * (0.6 + 0.4 * (1 - hn));
          whiten' = clampf (whiten p + dt * 0.15) 0 1
      in p\<lparr>life := life', vy := vy', vx := vx', p_x := wrap_x winW x', p_y := y',
            p_r := r', whiten := whiten'\<rparr>)"

text \<open>The predicate of \<open>std::remove_if\<close>: old or high puffs.\<close>

definition removed :: "int \<Rightarrow> Puff \<Rightarrow> bool" where
  "removed winH p = (life p > maxLife p \<or> p_y p - p_r p > real_of_int winH * 1.1)"

definition updatePuffs :: "Puff list \<Rightarrow> real \<Rightarrow> real \<Rightarrow> int \<Rightarrow> int \<Rightarrow> Puff list" where
  "updatePuffs P dt breeze winW winH =
     filter (\<lambda>p. \<not> removed winH p) (map (updatePuff dt breeze winW winH) P)"

text \<open>
  A run of updates, one per tick; a tick gives \<open>(dt, breeze, winW, winH)\<close>, which the
  main loop may change from one frame to the next.
\<close>

fun runUpdates :: "(real \<times> real \<times> int \<times> int) list \<Rightarrow> Puff list \<Rightarrow> Puff list" where
  "runUpdates [] P = P"
| "runUpdates ((dt, breeze, winW, winH) # ticks) P = runUpdates ticks (updatePuffs P dt breeze winW winH)"

subsection \<open>The spawn scheduler\<close>

text \<open>
  \<open>while (emitterTimer >= 1.f) { spawnPuff(puffs, E, winW, winH); emitterTimer -= 1.f; }\<close>

  The credit is a \<^verbatim>\<open>float\<close>: the decrement is rounded. Above \<open>2 ^ 24\<close> the rounded
  difference can be the credit itself, and the loop of the source then never ends; its
  value here is \<open>None\<close>.
\<close>

partial_function (option) spawn_while ::
    "real \<Rightarrow> Puff list \<Rightarrow> Emitter \<Rightarrow> int \<Rightarrow> int \<Rightarrow> rng \<Rightarrow> (real \<times> Puff list \<times> rng) option" where
  "spawn_while timer P E winW winH g =
     (if timer \<ge> 1
      then spawn_while (fl32 (timer - 1)) (fst (spawnPuff P E winW winH g)) E winW winH
             (snd (spawnPuff P E winW winH g))
      else Some (timer, P, g))"

text \<open>The loop is unfolded by hand, one iteration at a time, where a proof needs it.\<close>

declare spawn_while.simps [simp del]

text \<open>
  The credit after \<open>emitterTimer += dt * E.rate\<close>: the product is rounded, then the sum.
\<close>

definition credit_next :: "real \<Rightarrow> real \<Rightarrow> real \<Rightarrow> real" where
  "credit_next R timer dt = fl32 (timer + fl32 (fl32 dt * fl32 R))"

text \<open>
  One emitter in one tick: \<open>emitterTimer += dt * E.rate\<close>, then the loop. The source
  writes these two lines out twice, for \<open>emitterTimerA\<close> and \<open>emitterTimerB\<close>.
\<close>

definition emitter_tick ::
    "real \<Rightarrow> real \<Rightarrow> Puff list \<Rightarrow> Emitter \<Rightarrow> int \<Rightarrow> int \<Rightarrow> rng \<Rightarrow> (real \<times> Puff list \<times> rng) option" where
  "emitter_tick dt timer P E winW winH g =
     spawn_while (credit_next (rate E) timer dt) P E winW winH g"

text \<open>One emitter driven through a sequence of ticks, its rate and span unchanged.\<close>

fun run_emitter ::
    "real list \<Rightarrow> real \<Rightarrow> Puff list \<Rightarrow> Emitter \<Rightarrow> int \<Rightarrow> int \<Rightarrow> rng \<Rightarrow> (real \<times> Puff list \<times> rng) option" where
  "run_emitter [] timer P E winW winH g = Some (timer, P, g)"
| "run_emitter (dt # dts) timer P E winW winH g =
     (case emitter_tick dt timer P E winW winH g of
        None \<Rightarrow> None
      | Some (timer', P', g') \<Rightarrow> run_emitter dts timer' P' E winW winH g')"

text \<open>
  The spawn count as the specification words it: the credit grows by \<open>dt * rate\<close>, in
  the float arithmetic of \<open>credit_next\<close>, and every whole unit of credit is one particle.
  A function of the rate, the starting credit and the \<open>dt\<close> sequence alone.
\<close>

fun spawn_count :: "real \<Rightarrow> real \<Rightarrow> real list \<Rightarrow> nat" where
  "spawn_count R credit [] = 0"
| "spawn_count R credit (dt # dts) =
     nat \<lfloor>credit_next R credit dt\<rfloor>
       + spawn_count R (credit_next R credit dt - real (nat \<lfloor>credit_next R credit dt\<rfloor>)) dts"

text \<open>The credit stays below \<open>2 ^ 24\<close>, where the float still counts in units, in every tick.\<close>

fun credit_small :: "real \<Rightarrow> real \<Rightarrow> real list \<Rightarrow> bool" where
  "credit_small R credit [] = True"
| "credit_small R credit (dt # dts) =
     (credit_next R credit dt < 16777216
      \<and> credit_small R (credit_next R credit dt - real (nat \<lfloor>credit_next R credit dt\<rfloor>)) dts)"

text \<open>The credit that is left after the ticks.\<close>

fun credit_after :: "real \<Rightarrow> real \<Rightarrow> real list \<Rightarrow> real" where
  "credit_after R credit [] = credit"
| "credit_after R credit (dt # dts) =
     credit_after R (credit_next R credit dt - real (nat \<lfloor>credit_next R credit dt\<rfloor>)) dts"

text \<open>
  The step of \<open>spawn_count\<close>, of \<open>credit_small\<close> and of \<open>credit_after\<close> with the credit
  after the increment as an argument \<open>c\<close>, so that an evaluation computes it once.
\<close>

definition count_step :: "real \<Rightarrow> real \<Rightarrow> real list \<Rightarrow> nat" where
  "count_step c R dts = nat \<lfloor>c\<rfloor> + spawn_count R (c - real (nat \<lfloor>c\<rfloor>)) dts"

definition small_step :: "real \<Rightarrow> real \<Rightarrow> real list \<Rightarrow> bool" where
  "small_step c R dts = (c < 16777216 \<and> credit_small R (c - real (nat \<lfloor>c\<rfloor>)) dts)"

definition after_step :: "real \<Rightarrow> real \<Rightarrow> real list \<Rightarrow> real" where
  "after_step c R dts = credit_after R (c - real (nat \<lfloor>c\<rfloor>)) dts"

subsection \<open>The main loop\<close>

datatype SDL_Keycode = SDLK_ESCAPE | SDLK_q | SDLK_LEFT | SDLK_RIGHT | SDLK_UP | SDLK_DOWN | SDLK_OTHER

datatype SDL_Event =
    SDL_QUIT
  | SDL_WINDOWEVENT_SIZE_CHANGED int int
  | SDL_KEYDOWN SDL_Keycode
  | SDL_OTHER

text \<open>The local variables of \<open>main\<close> that the loop reads and writes.\<close>

record Main =
  winW :: int
  winH :: int
  emitters :: "Emitter list"
  emitterTimerA :: real
  emitterTimerB :: real
  puffs :: "Puff list"
  running :: bool
  lastTicks :: "32 word"
  breeze :: real
  seed :: rng

definition main_init :: "32 word \<Rightarrow> rng \<Rightarrow> Main" where
  "main_init ticks g =
     \<lparr>winW = 960, winH = 600,
      emitters = [\<lparr>x0 = real_of_int 960 * 0.18, x1 = real_of_int 960 * 0.38, e_y = 110, rate = 4.0\<rparr>,
                  \<lparr>x0 = real_of_int 960 * 0.55, x1 = real_of_int 960 * 0.82, e_y = 110, rate = 3.2\<rparr>],
      emitterTimerA = 0, emitterTimerB = 0,
      puffs = [], running = True, lastTicks = ticks, breeze = 12, seed = g\<rparr>"

text \<open>The body of \<open>while (SDL_PollEvent(&ev))\<close> for one event.\<close>

definition handle_key :: "Main \<Rightarrow> SDL_Keycode \<Rightarrow> Main" where
  "handle_key s k =
     (case k of
        SDLK_ESCAPE \<Rightarrow> s\<lparr>running := False\<rparr>
      | SDLK_q \<Rightarrow> s\<lparr>running := False\<rparr>
      | SDLK_LEFT \<Rightarrow> s\<lparr>breeze := breeze s - 4\<rparr>
      | SDLK_RIGHT \<Rightarrow> s\<lparr>breeze := breeze s + 4\<rparr>
      | SDLK_UP \<Rightarrow> s\<lparr>emitters := map (\<lambda>e. e\<lparr>rate := rate e + 0.8\<rparr>) (emitters s)\<rparr>
      | SDLK_DOWN \<Rightarrow> s\<lparr>emitters := map (\<lambda>e. e\<lparr>rate := max 0.6 (rate e - 0.8)\<rparr>) (emitters s)\<rparr>
      | SDLK_OTHER \<Rightarrow> s)"

definition handle_event :: "Main \<Rightarrow> SDL_Event \<Rightarrow> Main" where
  "handle_event s ev =
     (case ev of
        SDL_QUIT \<Rightarrow> s\<lparr>running := False\<rparr>
      | SDL_WINDOWEVENT_SIZE_CHANGED data1 data2 \<Rightarrow>
          (let es = emitters s;
               es' = es[0 := (es ! 0)\<lparr>x0 := real_of_int data1 * 0.18,
                                       x1 := real_of_int data1 * 0.38, e_y := 110\<rparr>];
               es'' = es'[1 := (es' ! 1)\<lparr>x0 := real_of_int data1 * 0.55,
                                          x1 := real_of_int data1 * 0.82, e_y := 110\<rparr>]
           in s\<lparr>winW := data1, winH := data2, emitters := es''\<rparr>)
      | SDL_KEYDOWN k \<Rightarrow> handle_key s k
      | SDL_OTHER \<Rightarrow> s)"

definition poll_events :: "Main \<Rightarrow> SDL_Event list \<Rightarrow> Main" where
  "poll_events s evs = foldl handle_event s evs"

text \<open>
  The frame time: \<open>(now - lastTicks) * 0.001f\<close>, a \<^verbatim>\<open>Uint32\<close> difference converted to
  float and multiplied, then \<open>clampf(dt, 0.f, 0.033f)\<close>. \<open>now\<close> is what \<open>SDL_GetTicks()\<close>
  returns in this frame.
\<close>

definition frame_dt :: "32 word \<Rightarrow> 32 word \<Rightarrow> real" where
  "frame_dt lastT now =
     clampf (fl32 (fl32 (real (unat (now - lastT))) * fl32 0.001)) 0.0 (fl32 0.033)"

text \<open>
  The threshold of the mid-level seed, \<open>0.02f * dt * 60.f\<close>: two float products, from
  left to right. A draw below it spawns a puff.
\<close>

definition seed_threshold :: "real \<Rightarrow> real" where
  "seed_threshold dt = fl32 (fl32 (fl32 0.02 * dt) * fl32 60)"

text \<open>
  The rest of the loop body: timing, the two emitters, the mid-level seed and the update
  of the puffs. When a spawn loop never ends, the tick has no result.
\<close>

definition tick :: "Main \<Rightarrow> 32 word \<Rightarrow> Main option" where
  "tick s now =
     (let dt = frame_dt (lastTicks s) now
      in case emitter_tick dt (emitterTimerA s) (puffs s) (emitters s ! 0) (winW s) (winH s) (seed s) of
           None \<Rightarrow> None
         | Some (tA, P1, g1) \<Rightarrow>
             (case emitter_tick dt (emitterTimerB s) P1 (emitters s ! 1) (winW s) (winH s) g1 of
                None \<Rightarrow> None
              | Some (tB, P2, g2) \<Rightarrow>
                  (let (f, g3) = frand g2;
                       (P3, g5) =
                          (if f < seed_threshold dt
                           then (let (f', g4) = frand g3;
                                     mid = \<lparr>x0 = real_of_int (winW s) * 0.30,
                                              x1 = real_of_int (winW s) * 0.70,
                                              e_y = real_of_int (winH s) * 0.45 + f' * 50, rate = 1.0\<rparr>
                                 in spawnPuff P2 mid (winW s) (winH s) g4)
                           else (P2, g3))
                   in Some (s\<lparr>lastTicks := now, emitterTimerA := tA, emitterTimerB := tB,
                               puffs := updatePuffs P3 dt (breeze s) (winW s) (winH s),
                               seed := g5\<rparr>))))"

definition frame :: "Main \<Rightarrow> SDL_Event list \<times> 32 word \<Rightarrow> Main option" where
  "frame s f = tick (poll_events s (fst f)) (snd f)"

text \<open>
  \<open>while (running) { ... }\<close> over the frames that the platform delivers: the state of
  \<open>main\<close> at the end of the last frame. A frame whose tick never ends is the last one
  that the loop enters, and \<open>main_loop\<close> stops at the state in which that tick starts,
  after the events of the frame.
\<close>

fun main_loop :: "Main \<Rightarrow> (SDL_Event list \<times> 32 word) list \<Rightarrow> Main" where
  "main_loop s [] = s"
| "main_loop s (f # fs) =
     (if running s
      then (case frame s f of
              None \<Rightarrow> poll_events s (fst f)
            | Some s' \<Rightarrow> main_loop s' fs)
      else s)"

text \<open>The frame times of a run of frames, the first one counted from \<open>lastT\<close>.\<close>

fun frame_dts :: "32 word \<Rightarrow> (SDL_Event list \<times> 32 word) list \<Rightarrow> real list" where
  "frame_dts lastT [] = []"
| "frame_dts lastT (f # fs) = frame_dt lastT (snd f) # frame_dts (snd f) fs"

text \<open>A run of \<open>n\<close> frames without events, one every \<open>step\<close> milliseconds after \<open>now\<close>.\<close>

fun frames_every :: "32 word \<Rightarrow> 32 word \<Rightarrow> nat \<Rightarrow> (SDL_Event list \<times> 32 word) list" where
  "frames_every step now 0 = []"
| "frames_every step now (Suc n) = ([], now + step) # frames_every step (now + step) n"

text \<open>
  A run in which no tick is left without a result: every spawn loop of every frame ends.
\<close>

fun ticks_end :: "Main \<Rightarrow> (SDL_Event list \<times> 32 word) list \<Rightarrow> bool" where
  "ticks_end s [] = True"
| "ticks_end s (f # fs) =
     (if running s
      then (case frame s f of
              None \<Rightarrow> False
            | Some s' \<Rightarrow> ticks_end s' fs)
      else True)"

text \<open>The two emitters, their rates between 0 and \<open>B\<close>, and the two credits in \<open>[0, 1)\<close>.\<close>

definition rates_within :: "real \<Rightarrow> Main \<Rightarrow> bool" where
  "rates_within B s =
     (length (emitters s) = 2 \<and> (\<forall>e \<in> set (emitters s). 0 \<le> rate e \<and> rate e \<le> B)
      \<and> 0 \<le> emitterTimerA s \<and> emitterTimerA s < 1
      \<and> 0 \<le> emitterTimerB s \<and> emitterTimerB s < 1)"

subsection \<open>The floor of the emission rate\<close>

text \<open>Every emitter's rate is at least 0.6, the constant of the \<open>SDLK_DOWN\<close> branch.\<close>

definition rate_ok :: "Main \<Rightarrow> bool" where
  "rate_ok s = (\<forall>e \<in> set (emitters s). 0.6 \<le> rate e)"

subsection \<open>The range of the whiteness\<close>

definition whiten_ok :: "Puff list \<Rightarrow> bool" where
  "whiten_ok P = (\<forall>p \<in> set P. 0 \<le> whiten p \<and> whiten p \<le> 1)"

subsection \<open>Example inputs\<close>

text \<open>A puff as \<open>spawnPuff\<close> makes one, with no wobble, at the height of the emitters.\<close>

definition puff0 :: Puff where
  "puff0 = \<lparr>p_x = 200, p_y = 110, p_r = 12, vx = 0, vy = 12, growth = 3, wobble = 0,
            life = 0, maxLife = 20, whiten = 0.2\<rparr>"

text \<open>A generator whose every draw is one half.\<close>

definition rng0 :: rng where
  "rng0 = (\<lambda>n. 1 / 2)"

text \<open>A generator whose first draw is zero and whose every other draw is one half.\<close>

definition rng1 :: rng where
  "rng1 = (\<lambda>n. if n = 0 then 0 else 1 / 2)"

text \<open>
  Puffs just inside the left and the right wrap margin, drifting outwards with the breeze
  (\<open>-12\<close> for the left one, \<open>12\<close> for the right one).
\<close>

definition puffNearL :: Puff where
  "puffNearL = puff0\<lparr>p_x := - 99.9, vx := - 12\<rparr>"

definition puffNearR :: Puff where
  "puffNearR = puff0\<lparr>p_x := 1059.9, vx := 12\<rparr>"

text \<open>
  A puff half way up a viewport of height 600, two puffs of 19 seconds above its top edge
  (their bottom edges below the cull line at 660), and one with other velocities.
\<close>

definition puffHigh :: Puff where
  "puffHigh = puff0\<lparr>p_y := 300\<rparr>"

definition puffTopA :: Puff where
  "puffTopA = puff0\<lparr>p_y := 620, p_r := 40, vy := 14, life := 19, maxLife := 26, whiten := 1\<rparr>"

definition puffTopB :: Puff where
  "puffTopB = puff0\<lparr>p_y := 650, p_r := 40, vy := 14, life := 19, maxLife := 26, whiten := 1\<rparr>"

definition puffV :: Puff where
  "puffV = puff0\<lparr>vx := 5, vy := 1000\<rparr>"

text \<open>The state of \<open>main\<close> after one frame: two key presses, then a tick half a second
  after the start.\<close>

definition main1 :: Main where
  "main1 = main_loop (main_init 0 rng0) [([SDL_KEYDOWN SDLK_UP, SDL_KEYDOWN SDLK_RIGHT], 500)]"

text \<open>
  The state after one frame without events, with the generator \<open>rng1\<close>: the mid-level
  seed fires, and the state has one puff.
\<close>

definition main2 :: Main where
  "main2 = main_loop (main_init 0 rng1) [([], 500)]"

text \<open>Half a second of frames without events, one every 20 milliseconds.\<close>

definition frames20 :: "(SDL_Event list \<times> 32 word) list" where
  "frames20 = frames_every 20 0 25"

section \<open>Properties of \<open>updatePuffs\<close>\<close>

lemma clampf_range: "a \<le> b \<Longrightarrow> a \<le> clampf x a b \<and> clampf x a b \<le> b"
  by (simp add: clampf_def)

lemma updatePuff_life: "life (updatePuff dt bz W H p) = life p + dt"
  by (simp add: updatePuff_def Let_def)

lemma updatePuff_maxLife: "maxLife (updatePuff dt bz W H p) = maxLife p"
  by (simp add: updatePuff_def Let_def)

lemma updatePuffs_append:
  "updatePuffs (A @ B) dt bz W H = updatePuffs A dt bz W H @ updatePuffs B dt bz W H"
  by (simp add: updatePuffs_def)

lemma runUpdates_append:
  "runUpdates ticks (A @ B) = runUpdates ticks A @ runUpdates ticks B"
  by (induction ticks arbitrary: A B) (auto simp: updatePuffs_append)

lemma runUpdates_Nil: "runUpdates ticks [] = []"
  by (induction ticks) (auto simp: updatePuffs_def)

lemma updatePuffs_member:
  "q \<in> set (updatePuffs P dt bz W H) \<longleftrightarrow>
     (\<exists>p \<in> set P. q = updatePuff dt bz W H p \<and> \<not> removed H q)"
  by (auto simp: updatePuffs_def)

lemma runUpdates_snoc:
  "runUpdates (ticks @ [(dt, bz, W, H)]) P = updatePuffs (runUpdates ticks P) dt bz W H"
  by (induction ticks arbitrary: P) auto

text \<open>
  A puff that is still in the collection after a run of ticks descends from a puff of
  the start: its age is the start's age plus the \<open>dt\<close> of every tick, its maximum
  lifetime is unchanged, and it passed the cull test of the last tick.
\<close>

lemma runUpdates_life:
  "q \<in> set (runUpdates ticks P) \<Longrightarrow>
     \<exists>p \<in> set P. life q = life p + sum_list (map fst ticks) \<and> maxLife q = maxLife p
        \<and> (ticks \<noteq> [] \<longrightarrow> life q \<le> maxLife q)"
proof (induction ticks arbitrary: P q rule: rev_induct)
  case Nil
  then show ?case by auto
next
  case (snoc t ticks)
  obtain dt bz W H where t: "t = (dt, bz, W, H)"
    by (cases t) auto
  from snoc.prems obtain q' where q': "q' \<in> set (runUpdates ticks P)"
    and q: "q = updatePuff dt bz W H q'" and alive: "\<not> removed H q"
    unfolding t runUpdates_snoc updatePuffs_member by blast
  from snoc.IH [OF q'] obtain p where p: "p \<in> set P"
    and l: "life q' = life p + sum_list (map fst ticks)" and m: "maxLife q' = maxLife p"
    by blast
  have "life q = life p + sum_list (map fst (ticks @ [t]))"
    using l by (simp add: q updatePuff_life t)
  moreover have "maxLife q = maxLife p"
    using m by (simp add: q updatePuff_maxLife)
  moreover have "life q \<le> maxLife q"
    using alive by (simp add: removed_def)
  ultimately show ?case
    using p by blast
qed

lemma sum_list_fst_const:
  "\<forall>t \<in> set ticks. fst t = (c::real) \<Longrightarrow> sum_list (map fst ticks) = real (length ticks) * c"
  by (induction ticks) (auto simp: algebra_simps)

text \<open>
  Claim C1. Every puff that is in the collection when \<open>updatePuffs\<close> returns has
  \<open>life \<le> maxLife\<close> and its bottom edge \<open>y - r\<close> at most 1.1 times the viewport height.
  The puffs that stay are the updated ones whose age, raised by \<open>dt\<close> first, does not
  exceed the maximum lifetime (the test that removes is the strict \<open>life > maxLife\<close>) and
  whose bottom edge is not above the threshold.
  A puff created with \<open>life = 0\<close> and \<open>maxLife = 20\<close> is absent after 21 updates with
  \<open>dt = 1\<close>, whatever the breeze and the viewport of each tick and whatever else is in
  the collection: the collection is then the one that the other puffs alone give.
\<close>

theorem updatePuffs_culled:
  "(\<forall>q \<in> set (updatePuffs P dt bz W H).
      life q \<le> maxLife q \<and> p_y q - p_r q \<le> 1.1 * real_of_int H)
   \<and> (q \<in> set (updatePuffs P dt bz W H) \<longleftrightarrow>
        (\<exists>p \<in> set P. q = updatePuff dt bz W H p \<and> life p + dt \<le> maxLife p
            \<and> p_y q - p_r q \<le> 1.1 * real_of_int H))
   \<and> (length ticks = 21 \<and> (\<forall>t \<in> set ticks. fst t = 1) \<and> life p = 0 \<and> maxLife p = 20
        \<longrightarrow> runUpdates ticks (A @ p # B) = runUpdates ticks (A @ B))"
proof (intro conjI impI ballI)
  fix q assume "q \<in> set (updatePuffs P dt bz W H)"
  then have "\<not> removed H q"
    by (auto simp: updatePuffs_def)
  then show "life q \<le> maxLife q" and "p_y q - p_r q \<le> 1.1 * real_of_int H"
    by (simp_all add: removed_def)
next
  show "q \<in> set (updatePuffs P dt bz W H) \<longleftrightarrow>
        (\<exists>p \<in> set P. q = updatePuff dt bz W H p \<and> life p + dt \<le> maxLife p
            \<and> p_y q - p_r q \<le> 1.1 * real_of_int H)"
    unfolding updatePuffs_member
    by (auto simp: removed_def updatePuff_life updatePuff_maxLife)
next
  assume h: "length ticks = 21 \<and> (\<forall>t \<in> set ticks. fst t = 1) \<and> life p = 0 \<and> maxLife p = 20"
  then have s: "sum_list (map fst ticks) = 21"
    using sum_list_fst_const [of ticks 1] by simp
  have ne: "ticks \<noteq> []"
    using h by auto
  have "runUpdates ticks [p] = []"
  proof (cases "runUpdates ticks [p]")
    case Nil
    then show ?thesis .
  next
    case (Cons q qs)
    then have "q \<in> set (runUpdates ticks [p])"
      by simp
    from runUpdates_life [OF this] have "life q = 21" "maxLife q = 20" "life q \<le> maxLife q"
      using h s ne by auto
    then show ?thesis
      by simp
  qed
  then show "runUpdates ticks (A @ p # B) = runUpdates ticks (A @ B)"
    using runUpdates_append [of ticks A "[p] @ B"] runUpdates_append [of ticks "[p]" B]
      runUpdates_append [of ticks A B] by simp
qed

theorem updatePuffs_culled_witness:
  "updatePuff 1 0 960 600 puff0 \<in> set (updatePuffs [puff0] 1 0 960 600)
   \<and> life (updatePuff 1 0 960 600 puff0) \<le> maxLife (updatePuff 1 0 960 600 puff0)
   \<and> p_y (updatePuff 1 0 960 600 puff0) - p_r (updatePuff 1 0 960 600 puff0) \<le> 1.1 * real_of_int 600
   \<and> life puff0 = 0 \<and> maxLife puff0 = 20
   \<and> runUpdates (replicate 21 (1, 0, 960, 600)) [puff0] = []"
proof -
  have m: "updatePuff 1 0 960 600 puff0 \<in> set (updatePuffs [puff0] 1 0 960 600)"
    by (simp add: updatePuffs_def updatePuff_def puff0_def heightNorm_def clampf_def
        wrap_x_def removed_def Let_def)
  have h: "length (replicate 21 (1::real, 0::real, 960::int, 600::int)) = 21
      \<and> (\<forall>t \<in> set (replicate 21 (1::real, 0::real, 960::int, 600::int)). fst t = 1)
      \<and> life puff0 = 0 \<and> maxLife puff0 = 20"
    by (simp add: puff0_def)
  from updatePuffs_culled [where P = "[puff0]" and dt = 1 and bz = 0 and W = 960 and H = 600
      and ticks = "replicate 21 (1, 0, 960, 600)" and p = puff0 and A = "[]" and B = "[]"] m h
  show ?thesis
    by (auto simp: runUpdates_Nil)
qed

text \<open>
  The age is raised before the cull test and the test is strict: after the 20th update
  the example puff has \<open>life = maxLife = 20\<close> and is still there.
\<close>

lemma puff0_survives_20:
  "map life (runUpdates (replicate 20 (1, 0, 960, 600)) [puff0]) = [20]"
  by (simp add: eval_nat_numeral updatePuffs_def updatePuff_def puff0_def heightNorm_def
      clampf_def wrap_x_def removed_def Let_def)

lemma updatePuff_x: "p_x (updatePuff dt bz W H p) = wrap_x W (advect_x dt bz p)"
  by (simp add: updatePuff_def advect_x_def Let_def)

lemma wrap_x_low: "x < - 100 \<Longrightarrow> wrap_x W x = x + (real_of_int W + 200)"
  by (simp add: wrap_x_def Let_def)

lemma wrap_x_high: "- 200 \<le> W \<Longrightarrow> x > real_of_int W + 100 \<Longrightarrow> wrap_x W x = x - (real_of_int W + 200)"
  by (simp add: wrap_x_def Let_def)

lemma wrap_x_inside: "- 100 \<le> x \<Longrightarrow> x \<le> real_of_int W + 100 \<Longrightarrow> wrap_x W x = x"
  by (simp add: wrap_x_def Let_def)


text \<open>
  Claim C3. The wrap tests read the position after the advection of the same tick,
  \<open>advect_x dt breeze p\<close>, once per tick. When that position is below \<open>-100\<close> the puff
  ends the tick at that position plus \<open>winW + 200\<close>; when it is above \<open>winW + 100\<close>, at
  that position minus \<open>winW + 200\<close>, for every viewport width from \<open>-200\<close> up, the width
  of every window among them; between the two margins it is left alone. A position that
  the first test has shifted is not above \<open>winW + 100\<close>: one shift at most per tick.
\<close>

theorem updatePuff_wrap:
  "p_x (updatePuff dt bz W H p) = wrap_x W (advect_x dt bz p)
   \<and> (advect_x dt bz p < - 100 \<longrightarrow>
        p_x (updatePuff dt bz W H p) = advect_x dt bz p + (real_of_int W + 200)
        \<and> p_x (updatePuff dt bz W H p) < real_of_int W + 100)
   \<and> (- 200 \<le> W \<and> advect_x dt bz p > real_of_int W + 100 \<longrightarrow>
        p_x (updatePuff dt bz W H p) = advect_x dt bz p - (real_of_int W + 200)
        \<and> - 100 < p_x (updatePuff dt bz W H p))
   \<and> (- 100 \<le> advect_x dt bz p \<and> advect_x dt bz p \<le> real_of_int W + 100 \<longrightarrow>
        p_x (updatePuff dt bz W H p) = advect_x dt bz p)"
  by (simp add: updatePuff_x wrap_x_low wrap_x_high wrap_x_inside)

theorem updatePuff_wrap_witness:
  "advect_x 0.033 (- 12) puffNearL < - 100
   \<and> p_x (updatePuff 0.033 (- 12) 960 600 puffNearL) = - 100.296 + 1160
   \<and> (- 200::int) \<le> 960 \<and> advect_x 0.033 12 puffNearR > real_of_int 960 + 100
   \<and> p_x (updatePuff 0.033 12 960 600 puffNearR) = 1060.296 - 1160
   \<and> - 100 \<le> advect_x 0.033 12 puff0 \<and> advect_x 0.033 12 puff0 \<le> real_of_int 960 + 100
   \<and> p_x (updatePuff 0.033 12 960 600 puff0) = 200.0198"
proof -
  have a: "advect_x 0.033 (- 12) puffNearL = - 100.296"
    by (simp add: advect_x_def puffNearL_def puff0_def Let_def)
  have b: "advect_x 0.033 12 puffNearR = 1060.296"
    by (simp add: advect_x_def puffNearR_def puff0_def Let_def)
  have c: "advect_x 0.033 12 puff0 = 200.0198"
    by (simp add: advect_x_def puff0_def Let_def)
  from updatePuff_wrap [where dt = "0.033" and bz = "- 12" and W = 960 and H = 600 and p = puffNearL]
    updatePuff_wrap [where dt = "0.033" and bz = 12 and W = 960 and H = 600 and p = puffNearR]
    updatePuff_wrap [where dt = "0.033" and bz = 12 and W = 960 and H = 600 and p = puff0]
  show ?thesis
    unfolding a b c by simp
qed

lemma clampf_mono: "x \<le> y \<Longrightarrow> clampf x a b \<le> clampf y a b"
  by (simp add: clampf_def max_def min_def)

lemma heightNorm_range: "0 \<le> heightNorm y H \<and> heightNorm y H \<le> 1"
  by (simp add: heightNorm_def clampf_def)

lemma heightNorm_mono: "0 \<le> H \<Longrightarrow> y1 \<le> y2 \<Longrightarrow> heightNorm y1 H \<le> heightNorm y2 H"
  by (auto simp: heightNorm_def intro!: clampf_mono divide_right_mono)

lemma updatePuff_r:
  "p_r (updatePuff dt bz W H p) = p_r p + growth p * dt * (0.6 + 0.4 * (1 - heightNorm (p_y p) H))"
  by (simp add: updatePuff_def Let_def)

lemma updatePuff_growth: "growth (updatePuff dt bz W H p) = growth p"
  by (simp add: updatePuff_def Let_def)

lemma growth_factor_pos: "0 < 0.6 + 0.4 * (1 - heightNorm y H)"
proof -
  have "heightNorm y H \<le> 1"
    using heightNorm_range [of y H] by blast
  then show ?thesis
    by argo
qed

lemma spawnPuff_last:
  "last (fst (spawnPuff P E W H g)) =
     \<lparr>p_x = x0 E + g 0 * (x1 E - x0 E), p_y = e_y E + g 1 * 10, p_r = 12 + g 2 * 10,
      vx = (g 3 - 0.5) * 8, vy = 12 + g 4 * 10, growth = 3 + g 5 * 6,
      wobble = (g 6 * 2 - 1) * 0.8, life = 0, maxLife = 18 + g 7 * 8, whiten = 0.2\<rparr>"
  by (simp add: spawnPuff_def frand_def Let_def eval_nat_numeral)


lemma heightNorm_strict:
  assumes "0 < H" "y1 < y2" "y1 < real_of_int H" "0 < y2"
  shows "heightNorm y1 H < heightNorm y2 H"
proof -
  have h: "0 < real_of_int H"
    using assms(1) by simp
  have "y1 / real_of_int H < y2 / real_of_int H"
    using assms(2) h by (simp add: divide_strict_right_mono)
  moreover have "y1 / real_of_int H < 1"
    using assms(3) h by simp
  moreover have "0 < y2 / real_of_int H"
    using assms(4) h by simp
  ultimately show ?thesis
    using assms(1) by (simp add: heightNorm_def clampf_def max_def min_def)
qed

lemma heightNorm_top:
  assumes "0 < H" "real_of_int H \<le> y"
  shows "heightNorm y H = 1"
proof -
  have "1 \<le> y / real_of_int H"
    using assms by simp
  then show ?thesis
    using assms(1) by (simp add: heightNorm_def clampf_def max_def min_def)
qed

lemma increment_less_iff:
  assumes "0 \<le> (k::real)"
  shows "k * (0.6 + 0.4 * (1 - b)) < k * (0.6 + 0.4 * (1 - a)) \<longleftrightarrow> 0 < k \<and> a < b"
proof (cases "k = 0")
  case True
  then show ?thesis
    by simp
next
  case False
  then have k: "0 < k"
    using assms by simp
  have "k * (0.6 + 0.4 * (1 - b)) < k * (0.6 + 0.4 * (1 - a))
      \<longleftrightarrow> 0.6 + 0.4 * (1 - b) < 0.6 + 0.4 * (1 - a)"
    using k by (rule mult_less_cancel_left_pos)
  also have "\<dots> \<longleftrightarrow> a < b"
    by argo
  finally show ?thesis
    using k by simp
qed

text \<open>
  Claim C5, as amended. With a growth rate and a \<open>dt\<close> that are not negative the radius
  after the update is at least the radius before; the growth rate itself is never
  changed, so this holds tick after tick. The increment is
  \<open>growth * dt * (0.6 + 0.4 * (1 - heightNorm))\<close>. For the same growth and \<open>dt\<close> the
  increment of the lower puff is never the smaller one. It is the larger one exactly
  when \<open>growth * dt\<close> is positive and the two \<open>heightNorm\<close> differ: that is the case for
  two different heights of which the lower is below the top edge of the viewport and
  the higher above its bottom edge. From the top edge up \<open>heightNorm\<close> is 1 for both, and
  the increments are equal. \<open>spawnPuff\<close> draws the growth rate from \<open>[3, 9]\<close>.
\<close>

theorem updatePuff_radius:
  "(0 \<le> growth p \<and> 0 \<le> dt \<longrightarrow> p_r p \<le> p_r (updatePuff dt bz W H p))
   \<and> p_r (updatePuff dt bz W H p) - p_r p
        = growth p * dt * (0.6 + 0.4 * (1 - heightNorm (p_y p) H))
   \<and> growth (updatePuff dt bz W H p) = growth p
   \<and> (growth q = growth p \<and> 0 \<le> growth p \<and> 0 \<le> dt \<longrightarrow>
        (p_r (updatePuff dt bz W H q) - p_r q < p_r (updatePuff dt bz W H p) - p_r p
           \<longleftrightarrow> 0 < growth p * dt \<and> heightNorm (p_y p) H < heightNorm (p_y q) H))
   \<and> (growth q = growth p \<and> 0 \<le> growth p \<and> 0 \<le> dt
          \<and> heightNorm (p_y p) H \<le> heightNorm (p_y q) H \<longrightarrow>
        p_r (updatePuff dt bz W H q) - p_r q \<le> p_r (updatePuff dt bz W H p) - p_r p)
   \<and> (0 \<le> H \<and> p_y p \<le> p_y q \<longrightarrow> heightNorm (p_y p) H \<le> heightNorm (p_y q) H)
   \<and> (0 < H \<and> p_y p < p_y q \<and> p_y p < real_of_int H \<and> 0 < p_y q \<longrightarrow>
        heightNorm (p_y p) H < heightNorm (p_y q) H)
   \<and> (0 < H \<and> real_of_int H \<le> p_y p \<and> real_of_int H \<le> p_y q \<longrightarrow>
        heightNorm (p_y p) H = heightNorm (p_y q) H)
   \<and> (0 \<le> g 5 \<and> g 5 \<le> 1 \<longrightarrow>
        3 \<le> growth (last (fst (spawnPuff P E W H g)))
        \<and> growth (last (fst (spawnPuff P E W H g))) \<le> 9)"
proof (intro conjI impI)
  assume "0 \<le> growth p \<and> 0 \<le> dt"
  then have "0 \<le> growth p * dt * (0.6 + 0.4 * (1 - heightNorm (p_y p) H))"
    using growth_factor_pos [of "p_y p" H] by simp
  then show "p_r p \<le> p_r (updatePuff dt bz W H p)"
    by (simp add: updatePuff_r)
next
  show "p_r (updatePuff dt bz W H p) - p_r p
        = growth p * dt * (0.6 + 0.4 * (1 - heightNorm (p_y p) H))"
    by (simp add: updatePuff_r)
next
  show "growth (updatePuff dt bz W H p) = growth p"
    by (rule updatePuff_growth)
next
  assume h: "growth q = growth p \<and> 0 \<le> growth p \<and> 0 \<le> dt"
  then have k: "0 \<le> growth p * dt"
    by simp
  have i: "p_r (updatePuff dt bz W H q) - p_r q
      = growth p * dt * (0.6 + 0.4 * (1 - heightNorm (p_y q) H))"
    "p_r (updatePuff dt bz W H p) - p_r p
      = growth p * dt * (0.6 + 0.4 * (1 - heightNorm (p_y p) H))"
    using h by (simp_all add: updatePuff_r)
  show "p_r (updatePuff dt bz W H q) - p_r q < p_r (updatePuff dt bz W H p) - p_r p
      \<longleftrightarrow> 0 < growth p * dt \<and> heightNorm (p_y p) H < heightNorm (p_y q) H"
    unfolding i using k by (rule increment_less_iff)
next
  assume h: "growth q = growth p \<and> 0 \<le> growth p \<and> 0 \<le> dt
      \<and> heightNorm (p_y p) H \<le> heightNorm (p_y q) H"
  then have "0.6 + 0.4 * (1 - heightNorm (p_y q) H) \<le> 0.6 + 0.4 * (1 - heightNorm (p_y p) H)"
    by simp
  moreover have "0 \<le> growth p * dt"
    using h by simp
  ultimately have "growth p * dt * (0.6 + 0.4 * (1 - heightNorm (p_y q) H))
      \<le> growth p * dt * (0.6 + 0.4 * (1 - heightNorm (p_y p) H))"
    by (intro mult_left_mono)
  with h show "p_r (updatePuff dt bz W H q) - p_r q \<le> p_r (updatePuff dt bz W H p) - p_r p"
    by (simp add: updatePuff_r)
next
  assume "0 \<le> H \<and> p_y p \<le> p_y q"
  then show "heightNorm (p_y p) H \<le> heightNorm (p_y q) H"
    by (simp add: heightNorm_mono)
next
  assume "0 < H \<and> p_y p < p_y q \<and> p_y p < real_of_int H \<and> 0 < p_y q"
  then show "heightNorm (p_y p) H < heightNorm (p_y q) H"
    by (simp add: heightNorm_strict)
next
  assume "0 < H \<and> real_of_int H \<le> p_y p \<and> real_of_int H \<le> p_y q"
  then show "heightNorm (p_y p) H = heightNorm (p_y q) H"
    by (simp add: heightNorm_top)
next
  assume "0 \<le> g 5 \<and> g 5 \<le> 1"
  then show "3 \<le> growth (last (fst (spawnPuff P E W H g)))"
    and "growth (last (fst (spawnPuff P E W H g))) \<le> 9"
    by (simp_all add: spawnPuff_last)
qed

text \<open>
  The claim as the specification words it, the increment larger at the lower altitude,
  fails where the clamp of \<open>heightNorm\<close> or a \<open>dt\<close> of zero makes the increments equal.
  Two puffs at \<open>y = 620\<close> and \<open>y = 650\<close> in a viewport of height 600, both still below the
  cull line after the update, grow by the same amount; and in a tick with \<open>dt = 0\<close>, two
  frames within the same millisecond, no puff grows at all.
\<close>

theorem updatePuff_radius_counterexample:
  "growth puffTopB = growth puffTopA \<and> 0 \<le> growth puffTopA \<and> (0::real) \<le> 0.033
   \<and> p_y puffTopA < p_y puffTopB
   \<and> p_r (updatePuff 0.033 12 960 600 puffTopB) - p_r puffTopB
       = p_r (updatePuff 0.033 12 960 600 puffTopA) - p_r puffTopA
   \<and> updatePuffs [puffTopA, puffTopB] 0.033 12 960 600
       = [updatePuff 0.033 12 960 600 puffTopA, updatePuff 0.033 12 960 600 puffTopB]
   \<and> growth puffHigh = growth puff0 \<and> p_y puff0 < p_y puffHigh
   \<and> p_r (updatePuff 0 12 960 600 puffHigh) - p_r puffHigh
       = p_r (updatePuff 0 12 960 600 puff0) - p_r puff0"
  by (simp add: puffTopA_def puffTopB_def puffHigh_def puff0_def updatePuffs_def updatePuff_def
      removed_def heightNorm_def clampf_def wrap_x_def Let_def)

theorem updatePuff_radius_witness:
  "0 \<le> growth puff0 \<and> (0::real) \<le> 0.033
   \<and> p_r puff0 \<le> p_r (updatePuff 0.033 12 960 600 puff0)
   \<and> p_r (updatePuff 0.033 12 960 600 puff0) - p_r puff0 = 0.09174
   \<and> growth puffHigh = growth puff0
   \<and> (0::int) < 600 \<and> p_y puff0 < p_y puffHigh \<and> p_y puff0 < real_of_int 600 \<and> 0 < p_y puffHigh
   \<and> heightNorm (p_y puff0) 600 < heightNorm (p_y puffHigh) 600
   \<and> p_r (updatePuff 0.033 12 960 600 puffHigh) - p_r puffHigh
       < p_r (updatePuff 0.033 12 960 600 puff0) - p_r puff0
   \<and> real_of_int 600 \<le> p_y puffTopA \<and> real_of_int 600 \<le> p_y puffTopB
   \<and> heightNorm (p_y puffTopA) 600 = heightNorm (p_y puffTopB) 600
   \<and> p_r (updatePuff 0.033 12 960 600 puffTopB) - p_r puffTopB
       \<le> p_r (updatePuff 0.033 12 960 600 puffTopA) - p_r puffTopA
   \<and> 0 \<le> rng0 5 \<and> rng0 5 \<le> 1
   \<and> growth (last (fst (spawnPuff [] (emitters (main_init 0 rng0) ! 0) 960 600 rng0))) \<le> 9"
proof -
  have h1: "0 \<le> growth puff0 \<and> (0::real) \<le> 0.033"
    by (simp add: puff0_def)
  have h2: "growth puffHigh = growth puff0 \<and> 0 \<le> growth puff0 \<and> (0::real) \<le> 0.033"
    by (simp add: puff0_def puffHigh_def)
  have h3: "(0::int) < 600 \<and> p_y puff0 < p_y puffHigh \<and> p_y puff0 < real_of_int 600 \<and> 0 < p_y puffHigh"
    by (simp add: puff0_def puffHigh_def)
  have h4: "(0::int) < 600 \<and> real_of_int 600 \<le> p_y puffTopA \<and> real_of_int 600 \<le> p_y puffTopB"
    by (simp add: puff0_def puffTopA_def puffTopB_def)
  have h5: "growth puffTopB = growth puffTopA \<and> 0 \<le> growth puffTopA \<and> (0::real) \<le> 0.033"
    by (simp add: puff0_def puffTopA_def puffTopB_def)
  have h6: "0 \<le> rng0 5 \<and> rng0 5 \<le> 1"
    by (simp add: rng0_def)
  have k: "0 < growth puff0 * 0.033"
    by (simp add: puff0_def)
  note i1 = updatePuff_radius [where p = puff0 and q = puffHigh and dt = "0.033" and bz = 12
      and W = 960 and H = 600 and g = rng0 and P = "[]" and E = "emitters (main_init 0 rng0) ! 0"]
  note i2 = updatePuff_radius [where p = puffTopA and q = puffTopB and dt = "0.033" and bz = 12
      and W = 960 and H = 600]
  from i1 h1 have a: "p_r puff0 \<le> p_r (updatePuff 0.033 12 960 600 puff0)"
    by blast
  from i1 have "p_r (updatePuff 0.033 12 960 600 puff0) - p_r puff0
      = growth puff0 * 0.033 * (0.6 + 0.4 * (1 - heightNorm (p_y puff0) 600))"
    by blast
  then have b: "p_r (updatePuff 0.033 12 960 600 puff0) - p_r puff0 = 0.09174"
    by (simp add: puff0_def heightNorm_def clampf_def)
  from i1 h3 have c: "heightNorm (p_y puff0) 600 < heightNorm (p_y puffHigh) 600"
    by blast
  from i1 h2 c k have d: "p_r (updatePuff 0.033 12 960 600 puffHigh) - p_r puffHigh
      < p_r (updatePuff 0.033 12 960 600 puff0) - p_r puff0"
    by blast
  from i2 h4 have e: "heightNorm (p_y puffTopA) 600 = heightNorm (p_y puffTopB) 600"
    by blast
  from i2 h5 e have f: "p_r (updatePuff 0.033 12 960 600 puffTopB) - p_r puffTopB
      \<le> p_r (updatePuff 0.033 12 960 600 puffTopA) - p_r puffTopA"
    by simp
  from i1 h6 have g: "growth (last (fst (spawnPuff [] (emitters (main_init 0 rng0) ! 0) 960 600 rng0))) \<le> 9"
    by blast
  from a b c d e f g h1 h2 h3 h4 h6 show ?thesis
    by blast
qed

lemma updatePuff_whiten_eq:
  "whiten (updatePuff dt bz W H p) = clampf (whiten p + dt * 0.15) 0 1"
  by (simp add: updatePuff_def Let_def)

lemma updatePuff_vy: "vy (updatePuff dt bz W H p) = 10 * (1 - 0.4 * heightNorm (p_y p) H) + 8"
  by (simp add: updatePuff_def Let_def)

lemma updatePuff_vx: "vx (updatePuff dt bz W H p) = vx p + (bz - vx p) * 0.05"
  by (simp add: updatePuff_def Let_def)

text \<open>
  Claim C8. The vertical velocity after the update is \<open>10 * (1 - 0.4 * heightNorm) + 8\<close>,
  with \<open>heightNorm = clampf (y / winH) 0 1\<close> for the \<open>y\<close> before the update: two puffs at
  the same height in the same viewport height leave with the same \<open>vy\<close>, whatever their
  \<open>vy\<close> before, \<open>dt\<close>, the breeze and the width. The horizontal velocity is eased from its
  old value, \<open>vx + (breeze - vx) * 0.05\<close>, so different old values give different new ones.
\<close>

theorem updatePuff_velocity:
  "vy (updatePuff dt bz W H p) = 10 * (1 - 0.4 * heightNorm (p_y p) H) + 8
   \<and> (H \<noteq> 0 \<longrightarrow>
        vy (updatePuff dt bz W H p) = 10 * (1 - 0.4 * clampf (p_y p / real_of_int H) 0 1) + 8)
   \<and> (p_y q = p_y p \<longrightarrow> vy (updatePuff dt' bz' W' H q) = vy (updatePuff dt bz W H p))
   \<and> vx (updatePuff dt bz W H p) = vx p + (bz - vx p) * 0.05
   \<and> (vx q \<noteq> vx p \<longrightarrow> vx (updatePuff dt' bz W' H' q) \<noteq> vx (updatePuff dt bz W H p))"
proof (intro conjI impI)
  show "vy (updatePuff dt bz W H p) = 10 * (1 - 0.4 * heightNorm (p_y p) H) + 8"
    by (rule updatePuff_vy)
next
  assume "H \<noteq> 0"
  then show "vy (updatePuff dt bz W H p) = 10 * (1 - 0.4 * clampf (p_y p / real_of_int H) 0 1) + 8"
    by (simp add: updatePuff_vy heightNorm_def)
next
  assume "p_y q = p_y p"
  then show "vy (updatePuff dt' bz' W' H q) = vy (updatePuff dt bz W H p)"
    by (simp add: updatePuff_vy)
next
  show "vx (updatePuff dt bz W H p) = vx p + (bz - vx p) * 0.05"
    by (rule updatePuff_vx)
next
  assume "vx q \<noteq> vx p"
  then have "vx q + (bz - vx q) / 20 \<noteq> vx p + (bz - vx p) / 20"
    by argo
  then show "vx (updatePuff dt' bz W' H' q) \<noteq> vx (updatePuff dt bz W H p)"
    by (simp add: updatePuff_vx)
qed

theorem updatePuff_velocity_witness:
  "(600::int) \<noteq> 0 \<and> p_y puffV = p_y puff0 \<and> vx puffV \<noteq> vx puff0 \<and> vy puffV \<noteq> vy puff0
   \<and> vy (updatePuff 0.033 12 960 600 puff0) = 10 * (1 - 0.4 * (11 / 60)) + 8
   \<and> vy (updatePuff 0.01 (- 4) 480 600 puffV) = vy (updatePuff 0.033 12 960 600 puff0)
   \<and> vx (updatePuff 0.033 12 960 600 puff0) = 0.6
   \<and> vx (updatePuff 0.033 12 960 600 puffV) \<noteq> vx (updatePuff 0.033 12 960 600 puff0)"
proof -
  have h: "(600::int) \<noteq> 0 \<and> p_y puffV = p_y puff0 \<and> vx puffV \<noteq> vx puff0 \<and> vy puffV \<noteq> vy puff0"
    by (simp add: puffV_def puff0_def)
  have c: "clampf (p_y puff0 / real_of_int 600) 0 1 = 11 / 60"
    by (simp add: puff0_def clampf_def)
  have v: "vx puff0 = 0"
    by (simp add: puff0_def)
  from updatePuff_velocity [where dt = "0.033" and bz = 12 and W = 960 and H = 600 and p = puff0
      and q = puffV and dt' = "0.01" and bz' = "- 4" and W' = 480 and H' = 600]
    updatePuff_velocity [where dt = "0.033" and bz = 12 and W = 960 and H = 600 and p = puff0
      and q = puffV and dt' = "0.033" and bz' = 12 and W' = 960 and H' = 600] h
  show ?thesis
    unfolding c v by simp
qed


section \<open>Properties of the binary32 rounding\<close>

lemma pow2_powr: "pow2 e = 2 powr real_of_int e"
  by (simp add: pow2_def powr_real_of_int divide_inverse)

lemma pow2_pos: "0 < pow2 e"
  by (simp add: pow2_powr)

lemma pow2_add: "pow2 (a + b) = pow2 a * pow2 b"
  by (simp add: pow2_powr powr_add)

lemma pow2_mono: "a \<le> b \<Longrightarrow> pow2 a \<le> pow2 b"
  by (simp add: pow2_powr)

lemma pow2_Suc: "pow2 (e + 1) = 2 * pow2 e"
  by (simp add: pow2_add) (simp add: pow2_def)

lemma pow2_pred: "2 * pow2 (e - 1) = pow2 e"
  using pow2_Suc [of "e - 1"] by simp

lemma pow2_int: "0 \<le> e \<Longrightarrow> pow2 e = of_int (2 ^ nat e)"
  by (simp add: pow2_def)

lemma pow2_le_1: "e \<le> 0 \<Longrightarrow> pow2 e \<le> 1"
  using pow2_mono [of e 0] by (simp add: pow2_def)

lemma expo_up_ge: "e \<le> expo_up x e"
  by (induction x e rule: expo_up.induct) (subst expo_up.simps, auto)

lemma expo_down_le: "expo_down x e \<le> e"
  by (induction x e rule: expo_down.induct) (subst expo_down.simps, auto)

lemma expo_down_ge: "- 149 \<le> e \<Longrightarrow> - 149 \<le> expo_down x e"
  by (induction x e rule: expo_down.induct) (subst expo_down.simps, auto)

lemma expo_down_upper: "\<bar>x\<bar> < 16777216 * pow2 e \<Longrightarrow> \<bar>x\<bar> < 16777216 * pow2 (expo_down x e)"
proof (induction x e rule: expo_down.induct)
  case (1 x e)
  show ?case
  proof (cases "- 149 < e \<and> \<bar>x\<bar> < 8388608 * pow2 e")
    case True
    then have "\<bar>x\<bar> < 16777216 * pow2 (e - 1)"
      using pow2_pred [of e] by simp
    from "1.IH" [OF True this] True show ?thesis
      by (subst expo_down.simps) simp
  next
    case False
    then show ?thesis
      using "1.prems" by (subst expo_down.simps) auto
  qed
qed

lemma expo_down_lower: "expo_down x e \<le> - 149 \<or> 8388608 * pow2 (expo_down x e) \<le> \<bar>x\<bar>"
proof (induction x e rule: expo_down.induct)
  case (1 x e)
  show ?case
  proof (cases "- 149 < e \<and> \<bar>x\<bar> < 8388608 * pow2 e")
    case True
    from "1.IH" [OF True] True show ?thesis
      by (subst (1 2) expo_down.simps) simp
  next
    case False
    then show ?thesis
      by (subst (1 2) expo_down.simps) auto
  qed
qed

lemma round_even_upper: "of_int (round_even z) \<le> z + 1 / 2"
  by (auto simp: round_even_def Let_def) linarith+

lemma round_even_int: "round_even (of_int k) = k"
  by (simp add: round_even_def Let_def)

lemma fl32_exact:
  assumes "x / pow2 (quantum_exp x) = of_int k"
  shows "fl32 x = x"
proof -
  have "fl32 x = x / pow2 (quantum_exp x) * pow2 (quantum_exp x)"
    unfolding fl32_def assms round_even_int ..
  then show ?thesis
    using pow2_pos [of "quantum_exp x"] by simp
qed

lemma quantum_exp_small:
  assumes "\<bar>x\<bar> < 16777216"
  shows "quantum_exp x = expo_down x 0" "quantum_exp x \<le> 0" "- 149 \<le> quantum_exp x"
    "\<bar>x\<bar> < 16777216 * pow2 (quantum_exp x)"
proof -
  show q: "quantum_exp x = expo_down x 0"
    using assms by (simp add: quantum_exp_def)
  show "quantum_exp x \<le> 0"
    unfolding q by (rule expo_down_le)
  show "- 149 \<le> quantum_exp x"
    unfolding q by (rule expo_down_ge) simp
  have "\<bar>x\<bar> < 16777216 * pow2 0"
    using assms by (simp add: pow2_def)
  then show "\<bar>x\<bar> < 16777216 * pow2 (quantum_exp x)"
    unfolding q by (rule expo_down_upper)
qed

lemma quantum_exp_pred:
  assumes "1 \<le> fl32 y" "fl32 y < 16777216"
  shows "quantum_exp (fl32 y - 1) \<le> quantum_exp y"
proof (cases "\<bar>y\<bar> < 16777216")
  case False
  then have "quantum_exp y = expo_up y 0"
    by (simp add: quantum_exp_def)
  then have "0 \<le> quantum_exp y"
    using expo_up_ge [of 0 y] by simp
  moreover have "quantum_exp (fl32 y - 1) \<le> 0"
    using assms by (intro quantum_exp_small) simp
  ultimately show ?thesis
    by simp
next
  case True
  let ?u = "fl32 y - 1"
  let ?ey = "quantum_exp y"
  let ?ru = "quantum_exp ?u"
  have u: "\<bar>?u\<bar> < 16777216" "0 \<le> ?u"
    using assms by simp_all
  show ?thesis
  proof (rule ccontr)
    assume "\<not> ?ru \<le> ?ey"
    then have lt: "?ey \<le> ?ru - 1"
      by simp
    have "- 149 \<le> ?ey"
      using True by (rule quantum_exp_small)
    then have "\<not> ?ru \<le> - 149"
      using lt by simp
    then have low: "8388608 * pow2 ?ru \<le> \<bar>?u\<bar>"
      using expo_down_lower [of ?u 0] quantum_exp_small(1) [OF u(1)] by simp
    have up: "\<bar>y\<bar> < 16777216 * pow2 ?ey"
      using True by (rule quantum_exp_small)
    have "pow2 ?ey \<le> pow2 (?ru - 1)"
      using lt by (rule pow2_mono)
    then have "16777216 * pow2 ?ey \<le> 8388608 * pow2 ?ru"
      using pow2_pred [of ?ru] by simp
    then have yu: "\<bar>y\<bar> < ?u"
      using up low u(2) by simp
    have "?ey \<le> 0"
      using True by (rule quantum_exp_small)
    then have p1: "pow2 ?ey \<le> 1"
      by (rule pow2_le_1)
    have "fl32 y \<le> (y / pow2 ?ey + 1 / 2) * pow2 ?ey"
      unfolding fl32_def using round_even_upper [of "y / pow2 ?ey"] pow2_pos [of ?ey]
      by (intro mult_right_mono) simp_all
    also have "\<dots> = y + pow2 ?ey / 2"
      using pow2_pos [of ?ey] by (simp add: field_simps)
    also have "\<dots> \<le> \<bar>y\<bar> + 1 / 2"
      using p1 by simp
    finally show False
      using yu by simp
  qed
qed

lemma fl32_minus_one:
  assumes "1 \<le> fl32 y" "fl32 y < 16777216"
  shows "fl32 (fl32 y - 1) = fl32 y - 1"
proof -
  define u where "u = fl32 y - 1"
  define ey where "ey = quantum_exp y"
  define ru where "ru = quantum_exp u"
  define k where "k = round_even (y / pow2 ey)"
  have t: "u = of_int k * pow2 ey - 1"
    by (simp add: u_def fl32_def k_def ey_def)
  have "\<bar>u\<bar> < 16777216"
    using assms by (simp add: u_def)
  then have r0: "ru \<le> 0"
    unfolding ru_def by (rule quantum_exp_small)
  have re: "ru \<le> ey"
    unfolding ru_def ey_def u_def using assms by (rule quantum_exp_pred)
  have a: "pow2 ey = pow2 (ey - ru) * pow2 ru"
    using pow2_add [of "ey - ru" ru] by simp
  have b: "1 = pow2 (- ru) * pow2 ru"
    using pow2_add [of "- ru" ru] by (simp add: pow2_def)
  have "u = of_int k * (pow2 (ey - ru) * pow2 ru) - pow2 (- ru) * pow2 ru"
    unfolding t using a b by simp
  then have "u = (of_int k * pow2 (ey - ru) - pow2 (- ru)) * pow2 ru"
    by (simp add: algebra_simps)
  then have "u / pow2 ru = of_int k * pow2 (ey - ru) - pow2 (- ru)"
    using pow2_pos [of ru] by (simp add: field_simps)
  also have "\<dots> = of_int (k * 2 ^ nat (ey - ru) - 2 ^ nat (- ru))"
    using re r0 by (simp add: pow2_int)
  finally have "fl32 u = u"
    unfolding ru_def by (rule fl32_exact)
  then show ?thesis
    by (simp add: u_def)
qed

text \<open>The quantum exponent stays in the range of binary32, and a binary32 number is its own rounding.\<close>

lemma expo_up_le: "e \<le> 104 \<Longrightarrow> expo_up x e \<le> 104"
  by (induction x e rule: expo_up.induct) (subst expo_up.simps, auto)

lemma expo_up_lower: "8388608 * pow2 e \<le> \<bar>x\<bar> \<Longrightarrow> 8388608 * pow2 (expo_up x e) \<le> \<bar>x\<bar>"
proof (induction x e rule: expo_up.induct)
  case (1 x e)
  show ?case
  proof (cases "e < 104 \<and> 16777216 * pow2 e \<le> \<bar>x\<bar>")
    case True
    then have "8388608 * pow2 (e + 1) \<le> \<bar>x\<bar>"
      by (simp add: pow2_Suc)
    from "1.IH" [OF True this] True show ?thesis
      by (subst expo_up.simps) simp
  next
    case False
    then show ?thesis
      using "1.prems" by (subst expo_up.simps) auto
  qed
qed

lemma expo_up_upper: "expo_up x e = 104 \<or> \<bar>x\<bar> < 16777216 * pow2 (expo_up x e) \<or> 104 < e"
proof (induction x e rule: expo_up.induct)
  case (1 x e)
  show ?case
  proof (cases "e < 104 \<and> 16777216 * pow2 e \<le> \<bar>x\<bar>")
    case True
    from "1.IH" [OF True] True show ?thesis
      by (subst (1 2) expo_up.simps) auto
  next
    case False
    then show ?thesis
      by (subst (1 2) expo_up.simps) auto
  qed
qed

lemma quantum_exp_range: "- 149 \<le> quantum_exp x \<and> quantum_exp x \<le> 104"
proof (cases "16777216 \<le> \<bar>x\<bar>")
  case True
  then show ?thesis
    using expo_up_le [of 0 x] expo_up_ge [of 0 x] by (simp add: quantum_exp_def)
next
  case False
  then show ?thesis
    using expo_down_le [of x 0] expo_down_ge [of 0 x] by (simp add: quantum_exp_def)
qed

lemma quantum_exp_lower: "quantum_exp x = - 149 \<or> 8388608 * pow2 (quantum_exp x) \<le> \<bar>x\<bar>"
proof (cases "16777216 \<le> \<bar>x\<bar>")
  case True
  then have "8388608 * pow2 0 \<le> \<bar>x\<bar>"
    by (simp add: pow2_def)
  then show ?thesis
    using True expo_up_lower [of 0 x] by (simp add: quantum_exp_def)
next
  case False
  then show ?thesis
    using expo_down_lower [of x 0] expo_down_ge [of 0 x] by (auto simp: quantum_exp_def)
qed

lemma quantum_exp_upper: "quantum_exp x = 104 \<or> \<bar>x\<bar> < 16777216 * pow2 (quantum_exp x)"
proof (cases "16777216 \<le> \<bar>x\<bar>")
  case True
  then show ?thesis
    using expo_up_upper [of x 0] by (simp add: quantum_exp_def)
next
  case False
  then show ?thesis
    using quantum_exp_small(4) [of x] by simp
qed

lemma round_even_bound:
  assumes "\<bar>z\<bar> \<le> of_int n"
  shows "\<bar>round_even z\<bar> \<le> n"
proof -
  have a: "z \<le> of_int n" "of_int (- n) \<le> z"
    using assms by auto
  have "\<lfloor>z\<rfloor> \<le> n"
    using a(1) by (simp add: floor_le_iff)
  have "- n \<le> \<lfloor>z\<rfloor>"
    using a(2) by (simp add: le_floor_iff)
  show ?thesis
  proof (cases "z = of_int \<lfloor>z\<rfloor>")
    case True
    then have "round_even z = \<lfloor>z\<rfloor>"
      by (simp add: round_even_def Let_def)
    then show ?thesis
      using \<open>\<lfloor>z\<rfloor> \<le> n\<close> \<open>- n \<le> \<lfloor>z\<rfloor>\<close> by simp
  next
    case False
    moreover have "of_int \<lfloor>z\<rfloor> \<le> z"
      by (rule of_int_floor_le)
    ultimately have "of_int \<lfloor>z\<rfloor> < z"
      by linarith
    then have "of_int \<lfloor>z\<rfloor> < (of_int n :: real)"
      using a(1) by simp
    then have "\<lfloor>z\<rfloor> < n"
      by simp
    moreover have "round_even z = \<lfloor>z\<rfloor> \<or> round_even z = \<lfloor>z\<rfloor> + 1"
      by (simp add: round_even_def Let_def)
    ultimately show ?thesis
      using \<open>- n \<le> \<lfloor>z\<rfloor>\<close> by auto
  qed
qed

lemma fl32_idem: "fl32 (fl32 x) = fl32 x"
proof -
  define e where "e = quantum_exp x"
  define k where "k = round_even (x / pow2 e)"
  define y where "y = fl32 x"
  define e' where "e' = quantum_exp y"
  have y: "y = of_int k * pow2 e"
    by (simp add: y_def fl32_def k_def e_def)
  have er: "- 149 \<le> e" "e \<le> 104" "- 149 \<le> e'" "e' \<le> 104"
    using quantum_exp_range [of x] quantum_exp_range [of y] by (simp_all add: e_def e'_def)
  have "\<exists>m. y / pow2 e' = of_int m"
  proof (cases "e' \<le> e")
    case True
    have "pow2 e = pow2 (e - e') * pow2 e'"
      using pow2_add [of "e - e'" e'] by simp
    then have "y / pow2 e' = of_int k * pow2 (e - e')"
      using pow2_pos [of e'] by (simp add: y)
    also have "\<dots> = of_int (k * 2 ^ nat (e - e'))"
      using True by (simp add: pow2_int)
    finally show ?thesis
      by blast
  next
    case False
    then have lt: "e + 1 \<le> e'"
      by simp
    then have "e' \<noteq> - 149" "e \<noteq> 104"
      using er by simp_all
    then have low: "8388608 * pow2 e' \<le> \<bar>y\<bar>"
      and up: "\<bar>x\<bar> < 16777216 * pow2 e"
      using quantum_exp_lower [of y] quantum_exp_upper [of x] by (simp_all add: e_def e'_def)
    have "\<bar>x / pow2 e\<bar> \<le> of_int 16777216"
      using up pow2_pos [of e] by (simp add: field_simps abs_mult)
    then have kb: "\<bar>k\<bar> \<le> 16777216"
      unfolding k_def by (rule round_even_bound)
    have "pow2 (e + 1) \<le> pow2 e'"
      using lt by (rule pow2_mono)
    then have "16777216 * pow2 e \<le> 8388608 * pow2 e'"
      by (simp add: pow2_Suc)
    also have "\<dots> \<le> \<bar>of_int k\<bar> * pow2 e"
      using low pow2_pos [of e] by (simp add: y abs_mult)
    finally have "16777216 \<le> \<bar>real_of_int k\<bar>"
      using pow2_pos [of e] by simp
    then have "16777216 \<le> \<bar>k\<bar>"
      by linarith
    then have k: "\<bar>k\<bar> = 16777216"
      using kb by simp
    have "\<bar>y\<bar> = 16777216 * pow2 e"
      using k pow2_pos [of e] by (simp add: y abs_mult)
    have e1: "e' = e + 1"
    proof (rule ccontr)
      assume "e' \<noteq> e + 1"
      then have "e + 2 \<le> e'"
        using lt by simp
      then have "pow2 (e + 2) \<le> pow2 e'"
        by (rule pow2_mono)
      then have "4 * pow2 e \<le> pow2 e'"
        using pow2_add [of e 2] by (simp add: pow2_def)
      then show False
        using low \<open>\<bar>y\<bar> = 16777216 * pow2 e\<close> pow2_pos [of e] by simp
    qed
    have "y / pow2 e' = of_int k / 2"
      using pow2_pos [of e] by (simp add: y e1 pow2_Suc)
    moreover have "k = 16777216 \<or> k = - 16777216"
      using k by linarith
    then have "even k"
      by auto
    ultimately show ?thesis
      by (metis of_int_numeral real_of_int_div)
  qed
  then obtain m where "y / pow2 (quantum_exp y) = of_int m"
    unfolding e'_def by blast
  then have "fl32 y = y"
    by (rule fl32_exact)
  then show ?thesis
    by (simp add: y_def)
qed

text \<open>Rounding keeps the sign, and does not cross a power of two.\<close>

lemma round_even_nonneg: "0 \<le> z \<Longrightarrow> 0 \<le> round_even z"
  by (auto simp: round_even_def Let_def)

lemma fl32_nonneg: "0 \<le> x \<Longrightarrow> 0 \<le> fl32 x"
  unfolding fl32_def using pow2_pos [of "quantum_exp x"]
  by (intro mult_nonneg_nonneg) (simp_all add: round_even_nonneg)

lemma fl32_le_pow2:
  assumes "0 \<le> x" "x \<le> 2 ^ n"
  shows "fl32 x \<le> 2 ^ n"
proof -
  define e where "e = quantum_exp x"
  define k where "k = round_even (x / pow2 e)"
  have p: "pow2 (int n) = 2 ^ n"
    by (simp add: pow2_def)
  have en: "e \<le> int n"
  proof (rule ccontr)
    assume "\<not> e \<le> int n"
    then have lt: "int n \<le> e" "e \<noteq> - 149"
      by simp_all
    then have "8388608 * pow2 e \<le> \<bar>x\<bar>"
      using quantum_exp_lower [of x] by (simp add: e_def)
    also have "\<dots> \<le> pow2 (int n)"
      using assms by (simp add: p)
    also have "\<dots> \<le> pow2 e"
      using lt(1) by (rule pow2_mono)
    finally show False
      using pow2_pos [of e] by simp
  qed
  have "pow2 (int n) = pow2 (int n - e) * pow2 e"
    using pow2_add [of "int n - e" e] by simp
  then have "x / pow2 e \<le> pow2 (int n - e)"
    using assms(2) pow2_pos [of e] by (simp add: p field_simps)
  moreover have "0 \<le> x / pow2 e"
    using assms(1) pow2_pos [of e] by simp
  moreover have i: "pow2 (int n - e) = of_int (2 ^ nat (int n - e))"
    using en by (simp add: pow2_int)
  ultimately have "\<bar>x / pow2 e\<bar> \<le> of_int (2 ^ nat (int n - e))"
    by simp
  then have "\<bar>k\<bar> \<le> 2 ^ nat (int n - e)"
    unfolding k_def by (rule round_even_bound)
  then have "k \<le> 2 ^ nat (int n - e)"
    by simp
  then have "real_of_int k \<le> pow2 (int n - e)"
    unfolding i by (simp only: of_int_le_iff)
  then have "real_of_int k * pow2 e \<le> pow2 (int n - e) * pow2 e"
    using pow2_pos [of e] by (intro mult_right_mono) simp_all
  also have "\<dots> = 2 ^ n"
    using pow2_add [of "int n - e" e] by (simp add: p)
  finally show ?thesis
    by (simp add: fl32_def k_def e_def)
qed

text \<open>The evaluation of \<open>fl32\<close> on a concrete number.\<close>

lemmas fl32_eval = fl32_def quantum_exp_def round_even_def pow2_def expo_up.simps expo_down.simps
  Let_def

lemma fl32_tenth: "fl32 0.1 = 13421773 / 134217728"
  by (simp add: fl32_eval)

lemma fl32_four: "fl32 4 = 4"
  by (simp add: fl32_eval)

lemma fl32_dt_max: "fl32 0.033 = 4429185 / 134217728"
  by (simp add: fl32_eval)

lemma fl32_millis_20: "fl32 (fl32 20 * fl32 0.001) = 10737419 / 536870912"
  by (simp add: fl32_eval)

lemma fl32_millis_33: "fl32 (fl32 33 * fl32 0.001) = 4429185 / 134217728"
  by (simp add: fl32_eval)

lemma fl32_millis_100: "fl32 (fl32 100 * fl32 0.001) = 13421773 / 134217728"
  by (simp add: fl32_eval)

lemma fl32_millis_500: "fl32 (fl32 500 * fl32 0.001) = 1 / 2"
  by (simp add: fl32_eval)

section \<open>Properties of the spawn scheduler\<close>

lemma spawnPuff_fst: "\<exists>p. fst (spawnPuff P E W H g) = P @ [p]"
  by (simp add: spawnPuff_def Let_def split: prod.splits)

lemma spawn_while_float:
  assumes "timer \<in> range fl32" "timer < 16777216"
  shows "\<exists>P' g'. spawn_while timer P E W H g = Some (timer - real (nat \<lfloor>timer\<rfloor>), P', g')
           \<and> length P' = length P + nat \<lfloor>timer\<rfloor> \<and> take (length P) P' = P"
  using assms
proof (induction "nat \<lfloor>timer\<rfloor>" arbitrary: timer P g)
  case 0
  then have lt: "timer < 1"
    by (simp add: floor_le_iff)
  then show ?case
    using 0 by (simp add: spawn_while.simps [of timer])
next
  case (Suc n)
  have "1 \<le> \<lfloor>timer\<rfloor>"
    using Suc.hyps(2) by linarith
  then have ge: "1 \<le> timer"
    by (simp add: le_floor_iff)
  obtain y where y: "timer = fl32 y"
    using Suc.prems(1) by blast
  have dec: "fl32 (timer - 1) = timer - 1"
    using fl32_minus_one [of y] ge Suc.prems(2) unfolding y by simp
  have rg: "timer - 1 \<in> range fl32"
    using dec by (metis rangeI)
  obtain p where p: "fst (spawnPuff P E W H g) = P @ [p]"
    using spawnPuff_fst by blast
  have n: "n = nat \<lfloor>timer - 1\<rfloor>"
    using Suc.hyps(2) by simp
  have lt: "timer - 1 < 16777216"
    using Suc.prems by simp
  from Suc.hyps(1) [OF n rg lt, of "P @ [p]" "snd (spawnPuff P E W H g)"]
  obtain P' g' where r: "spawn_while (timer - 1) (P @ [p]) E W H (snd (spawnPuff P E W H g))
        = Some (timer - 1 - real (nat \<lfloor>timer - 1\<rfloor>), P', g')"
      "length P' = length (P @ [p]) + nat \<lfloor>timer - 1\<rfloor>" "take (length (P @ [p])) P' = P @ [p]"
    by blast
  have fl: "nat \<lfloor>timer\<rfloor> = Suc (nat \<lfloor>timer - 1\<rfloor>)"
    using Suc.hyps(2) n by simp
  have "take (length P) P' = take (length P) (take (length (P @ [p])) P')"
    by (simp add: min_def)
  also have "\<dots> = P"
    by (simp only: r(3)) simp
  finally have tk: "take (length P) P' = P" .
  have "spawn_while timer P E W H g = Some (timer - real (nat \<lfloor>timer\<rfloor>), P', g')"
    using ge r(1) by (simp add: spawn_while.simps [of timer] dec p fl)
  then show ?case
    using r(2) tk fl by auto
qed


lemma credit_next_range: "credit_next R timer dt \<in> range fl32"
  by (simp add: credit_next_def)

text \<open>
  With a rate and a frame time that are binary32 numbers, as every \<^verbatim>\<open>float\<close> of the
  source is, the credit is the source's product and sum, each rounded once.
\<close>

lemma credit_next_float:
  assumes "R \<in> range fl32" "dt \<in> range fl32"
  shows "credit_next R timer dt = fl32 (timer + fl32 (dt * R))"
proof -
  from assms obtain r d where "R = fl32 r" "dt = fl32 d"
    by blast
  then show ?thesis
    by (simp add: credit_next_def fl32_idem)
qed

text \<open>With a rate of at most \<open>2 ^ 22\<close> and a frame time of at most 1 the credit stays small.\<close>

lemma credit_next_bound:
  assumes "0 \<le> timer" "timer < 1" "0 \<le> dt" "dt \<le> 1" "0 \<le> R" "R \<le> 4194304"
  shows "0 \<le> credit_next R timer dt \<and> credit_next R timer dt < 16777216"
proof -
  have d: "0 \<le> fl32 dt" "fl32 dt \<le> 1"
    using assms(3,4) fl32_nonneg [of dt] fl32_le_pow2 [of dt 0] by simp_all
  have r: "0 \<le> fl32 R" "fl32 R \<le> 2 ^ 22"
    using assms(5,6) fl32_nonneg [of R] fl32_le_pow2 [of R 22] by simp_all
  have p: "0 \<le> fl32 dt * fl32 R"
    using d(1) r(1) by simp
  have "fl32 dt * fl32 R \<le> 1 * 2 ^ 22"
    using d r by (intro mult_mono) simp_all
  then have p2: "fl32 dt * fl32 R \<le> 2 ^ 22"
    by simp
  have q: "0 \<le> fl32 (fl32 dt * fl32 R)" "fl32 (fl32 dt * fl32 R) \<le> 2 ^ 22"
    using p p2 fl32_nonneg fl32_le_pow2 by blast+
  have s: "0 \<le> timer + fl32 (fl32 dt * fl32 R)" "timer + fl32 (fl32 dt * fl32 R) \<le> 2 ^ 23"
    using q assms(1,2) by simp_all
  have "0 \<le> credit_next R timer dt" "credit_next R timer dt \<le> 2 ^ 23"
    unfolding credit_next_def using s fl32_nonneg fl32_le_pow2 by blast+
  then show ?thesis
    by simp
qed

lemma emitter_tick_result:
  assumes "credit_next (rate E) timer dt < 16777216"
  shows "\<exists>P' g'. emitter_tick dt timer P E W H g =
            Some (credit_next (rate E) timer dt - real (nat \<lfloor>credit_next (rate E) timer dt\<rfloor>), P', g')
           \<and> length P' = length P + nat \<lfloor>credit_next (rate E) timer dt\<rfloor>
           \<and> take (length P) P' = P"
  unfolding emitter_tick_def using credit_next_range assms by (rule spawn_while_float)

lemma run_emitter_count:
  assumes "credit_small (rate E) timer dts"
  shows "\<exists>t' P' g'. run_emitter dts timer P E W H g = Some (t', P', g')
           \<and> length P' = length P + spawn_count (rate E) timer dts \<and> take (length P) P' = P"
  using assms
proof (induction dts arbitrary: timer P g)
  case Nil
  show ?case by simp
next
  case (Cons dt dts)
  let ?c = "credit_next (rate E) timer dt"
  from Cons.prems have small: "?c < 16777216"
    and rest: "credit_small (rate E) (?c - real (nat \<lfloor>?c\<rfloor>)) dts"
    by simp_all
  from emitter_tick_result [OF small, of P W H g]
  obtain P1 g1 where et: "emitter_tick dt timer P E W H g = Some (?c - real (nat \<lfloor>?c\<rfloor>), P1, g1)"
    and l1: "length P1 = length P + nat \<lfloor>?c\<rfloor>" and t1: "take (length P) P1 = P"
    by blast
  from Cons.IH [OF rest, of P1 g1]
  obtain t' P' g' where r: "run_emitter dts (?c - real (nat \<lfloor>?c\<rfloor>)) P1 E W H g1 = Some (t', P', g')"
    and l2: "length P' = length P1 + spawn_count (rate E) (?c - real (nat \<lfloor>?c\<rfloor>)) dts"
    and t2: "take (length P1) P' = P1"
    by blast
  have "take (length P) P' = take (length P) (take (length P1) P')"
    using l1 by (simp add: min_def)
  also have "\<dots> = P"
    by (simp only: t2 t1)
  finally have "take (length P) P' = P" .
  then show ?case
    using r l1 l2 by (simp add: et)
qed

lemma spawn_while_idle: "timer < 1 \<Longrightarrow> spawn_while timer P E W H g = Some (timer, P, g)"
  by (simp add: spawn_while.simps [of timer])

lemma spawn_count_step:
  "spawn_count R credit (dt # dts) = count_step (credit_next R credit dt) R dts"
  by (simp add: count_step_def)

lemma credit_small_step:
  "credit_small R credit (dt # dts) = small_step (credit_next R credit dt) R dts"
  by (simp add: small_step_def)

lemma spawn_count_scenario: "spawn_count 4 0 (replicate 10 0.1) = 4"
  by (simp add: eval_nat_numeral spawn_count_step count_step_def credit_next_def fl32_tenth
      fl32_four fl32_eval del: spawn_count.simps(2))

lemma credit_small_scenario: "credit_small 4 0 (replicate 10 0.1)"
  by (simp add: eval_nat_numeral credit_small_step small_step_def credit_next_def fl32_tenth
      fl32_four fl32_eval del: credit_small.simps(2))

text \<open>
  Claim C2. In one tick the credit of an emitter grows by \<open>dt * rate\<close>, the product and
  the sum each rounded to binary32 (\<open>credit_next\<close>); the loop then takes one unit off for
  every puff it appends, as many as the credit has whole units, and leaves the puffs that
  were there in place. Below \<open>2 ^ 24\<close> the loop ends and every decrement is exact; the
  credit is below \<open>2 ^ 24\<close> whenever the credit before is in \<open>[0, 1)\<close>, the frame time in
  \<open>[0, 1]\<close> and the rate at most \<open>2 ^ 22\<close>. Driven through a sequence of ticks, the
  emitter appends \<open>spawn_count (rate E) timer dts\<close> puffs: a function of the rate, the
  starting credit and the \<open>dt\<close> sequence, whatever the generator draws, wherever the
  emitter is and whatever puffs are there already. With rate 4, credit 0 and ten ticks of
  \<open>dt = 0.1\<close> that is 4 puffs.
\<close>

theorem spawn_scheduler:
  "(credit_next (rate E) timer dt < 16777216 \<longrightarrow>
      (\<exists>P' g'. emitter_tick dt timer P E W H g =
                  Some (credit_next (rate E) timer dt
                          - real (nat \<lfloor>credit_next (rate E) timer dt\<rfloor>), P', g')
               \<and> length P' = length P + nat \<lfloor>credit_next (rate E) timer dt\<rfloor>
               \<and> take (length P) P' = P))
   \<and> (0 \<le> timer \<and> timer < 1 \<and> 0 \<le> dt \<and> dt \<le> 1 \<and> 0 \<le> rate E \<and> rate E \<le> 4194304 \<longrightarrow>
        credit_next (rate E) timer dt < 16777216)
   \<and> (credit_small (rate E) timer dts \<longrightarrow>
      (\<exists>t' P' g'. run_emitter dts timer P E W H g = Some (t', P', g')
               \<and> length P' = length P + spawn_count (rate E) timer dts
               \<and> take (length P) P' = P))
   \<and> (rate E = 4 \<longrightarrow>
      (\<exists>t' P' g'. run_emitter (replicate 10 0.1) 0 P E W H g = Some (t', P', g')
               \<and> length P' = length P + 4))"
proof (intro conjI impI)
  assume "0 \<le> timer \<and> timer < 1 \<and> 0 \<le> dt \<and> dt \<le> 1 \<and> 0 \<le> rate E \<and> rate E \<le> 4194304"
  then show "credit_next (rate E) timer dt < 16777216"
    using credit_next_bound [of timer dt "rate E"] by blast
next
  assume "credit_next (rate E) timer dt < 16777216"
  then show "\<exists>P' g'. emitter_tick dt timer P E W H g =
                  Some (credit_next (rate E) timer dt
                          - real (nat \<lfloor>credit_next (rate E) timer dt\<rfloor>), P', g')
               \<and> length P' = length P + nat \<lfloor>credit_next (rate E) timer dt\<rfloor>
               \<and> take (length P) P' = P"
    by (rule emitter_tick_result)
next
  assume "credit_small (rate E) timer dts"
  then show "\<exists>t' P' g'. run_emitter dts timer P E W H g = Some (t', P', g')
               \<and> length P' = length P + spawn_count (rate E) timer dts
               \<and> take (length P) P' = P"
    by (rule run_emitter_count)
next
  assume r: "rate E = 4"
  have "credit_small (rate E) 0 (replicate 10 0.1)"
    unfolding r by (rule credit_small_scenario)
  from run_emitter_count [OF this, of P W H g]
  show "\<exists>t' P' g'. run_emitter (replicate 10 0.1) 0 P E W H g = Some (t', P', g')
               \<and> length P' = length P + 4"
    unfolding r spawn_count_scenario by blast
qed

theorem spawn_scheduler_witness:
  "rate (emitters (main_init 0 rng0) ! 0) = 4
   \<and> credit_next 4 0.75 0.1 = 9646899 / 8388608
   \<and> (0::real) \<le> 0.75 \<and> (0.75::real) < 1 \<and> (0::real) \<le> 0.1 \<and> (0.1::real) \<le> 1
   \<and> credit_next 4 0.75 0.1 < 16777216
   \<and> map_option (\<lambda>(t', P', g'). (t', length P'))
         (emitter_tick 0.1 0.75 [] (emitters (main_init 0 rng0) ! 0) 960 600 rng0)
       = Some (1258291 / 8388608, 1)
   \<and> credit_small 4 0 (replicate 10 0.1)
   \<and> spawn_count 4 0 (replicate 10 0.1) = 4
   \<and> map_option (\<lambda>(t', P', g'). length P')
         (run_emitter (replicate 10 0.1) 0 [] (emitters (main_init 0 rng0) ! 0) 960 600 rng0)
       = Some 4"
proof -
  let ?E = "emitters (main_init 0 rng0) ! 0"
  have r: "rate ?E = 4"
    by (simp add: main_init_def)
  have c: "credit_next 4 0.75 0.1 = 9646899 / 8388608"
    by (simp add: credit_next_def fl32_tenth fl32_four fl32_eval)
  note inst = spawn_scheduler [where E = ?E and timer = "0.75" and dt = "0.1" and P = "[]"
      and W = 960 and H = 600 and g = rng0]
  have "(0::real) \<le> 0.75 \<and> (0.75::real) < 1 \<and> (0::real) \<le> 0.1 \<and> (0.1::real) \<le> 1
      \<and> 0 \<le> rate ?E \<and> rate ?E \<le> 4194304"
    unfolding r by simp
  with inst have lt: "credit_next (rate ?E) 0.75 0.1 < 16777216"
    by blast
  have fl: "nat \<lfloor>9646899 / 8388608 :: real\<rfloor> = 1"
    by simp
  have sm: "credit_small (rate ?E) 0 (replicate 10 0.1)"
    unfolding r by (rule credit_small_scenario)
  note inst2 = spawn_scheduler [where E = ?E and timer = 0 and dts = "replicate 10 0.1"
      and P = "[]" and W = 960 and H = 600 and g = rng0]
  from inst lt obtain P' g' where
    "emitter_tick 0.1 0.75 [] ?E 960 600 rng0 =
       Some (credit_next (rate ?E) 0.75 0.1 - real (nat \<lfloor>credit_next (rate ?E) 0.75 0.1\<rfloor>), P', g')"
    "length P' = length ([]::Puff list) + nat \<lfloor>credit_next (rate ?E) 0.75 0.1\<rfloor>"
    by blast
  then have a: "map_option (\<lambda>(t', P', g'). (t', length P'))
         (emitter_tick 0.1 0.75 [] ?E 960 600 rng0) = Some (1258291 / 8388608, 1)"
    unfolding r c fl by simp
  from inst2 sm obtain t2 P2 g2 where
    "run_emitter (replicate 10 0.1) 0 [] ?E 960 600 rng0 = Some (t2, P2, g2)"
    "length P2 = length ([]::Puff list) + spawn_count (rate ?E) 0 (replicate 10 0.1)"
    by blast
  then have b: "map_option (\<lambda>(t', P', g'). length P')
         (run_emitter (replicate 10 0.1) 0 [] ?E 960 600 rng0) = Some 4"
    unfolding r spawn_count_scenario by simp
  from r c lt a b sm show ?thesis
    unfolding r by (simp add: spawn_count_scenario)
qed

text \<open>
  In the main loop the scheduler runs inside \<open>tick\<close>, once for each of the two emitters,
  with the frame time: never negative, \<open>0.033f\<close> at most.
\<close>

lemma frame_dt_range: "0 \<le> frame_dt lastT now \<and> frame_dt lastT now \<le> 4429185 / 134217728"
  unfolding frame_dt_def fl32_dt_max by (simp add: clampf_def)

lemma fl32_zero: "fl32 0 = 0"
  by (simp add: fl32_def round_even_def)

lemma frame_dt_float: "frame_dt lastT now \<in> range fl32"
proof -
  have "frame_dt lastT now = fl32 0 \<or> frame_dt lastT now = fl32 0.033
      \<or> frame_dt lastT now = fl32 (fl32 (real (unat (now - lastT))) * fl32 0.001)"
    unfolding frame_dt_def fl32_zero by (auto simp: clampf_def max_def min_def)
  then show ?thesis
    by blast
qed

lemma tick_scheduler:
  assumes "credit_next (rate (emitters s ! 0)) (emitterTimerA s) (frame_dt (lastTicks s) now)
      < 16777216"
    and "credit_next (rate (emitters s ! 1)) (emitterTimerB s) (frame_dt (lastTicks s) now)
      < 16777216"
  shows "\<exists>s'. tick s now = Some s'
     \<and> emitterTimerA s' =
          credit_next (rate (emitters s ! 0)) (emitterTimerA s) (frame_dt (lastTicks s) now)
          - real (nat \<lfloor>credit_next (rate (emitters s ! 0)) (emitterTimerA s)
                          (frame_dt (lastTicks s) now)\<rfloor>)
     \<and> emitterTimerB s' =
          credit_next (rate (emitters s ! 1)) (emitterTimerB s) (frame_dt (lastTicks s) now)
          - real (nat \<lfloor>credit_next (rate (emitters s ! 1)) (emitterTimerB s)
                          (frame_dt (lastTicks s) now)\<rfloor>)"
proof -
  let ?dt = "frame_dt (lastTicks s) now"
  let ?cA = "credit_next (rate (emitters s ! 0)) (emitterTimerA s) ?dt"
  let ?cB = "credit_next (rate (emitters s ! 1)) (emitterTimerB s) ?dt"
  from emitter_tick_result [OF assms(1), of "puffs s" "winW s" "winH s" "seed s"]
  obtain P1 g1 where a: "emitter_tick ?dt (emitterTimerA s) (puffs s) (emitters s ! 0) (winW s)
      (winH s) (seed s) = Some (?cA - real (nat \<lfloor>?cA\<rfloor>), P1, g1)"
    by blast
  from emitter_tick_result [OF assms(2), of P1 "winW s" "winH s" g1]
  obtain P2 g2 where b: "emitter_tick ?dt (emitterTimerB s) P1 (emitters s ! 1) (winW s)
      (winH s) g1 = Some (?cB - real (nat \<lfloor>?cB\<rfloor>), P2, g2)"
    by blast
  show ?thesis
    using a b by (simp add: tick_def Let_def split: prod.splits)
qed

text \<open>
  The rounding shows in the counts of the frames that the main loop sees. A frame of 20
  milliseconds has \<open>dt = 0.020000001\<close>, and after 25 of them an emitter of rate 4 has
  spawned one puff, its credit just below 1 again; 250 frames of 33 milliseconds, each
  clamped to \<open>0.033f\<close>, make 32 puffs. Without rounding the credits would reach the
  whole numbers 2 and 33 in the last of these frames.
\<close>

lemma frame_dt_20: "frame_dt 0 20 = 10737419 / 536870912"
proof -
  have "frame_dt 0 20 = clampf (fl32 (fl32 20 * fl32 0.001)) 0 (fl32 0.033)"
    by (simp add: frame_dt_def)
  also have "\<dots> = 10737419 / 536870912"
    unfolding fl32_millis_20 fl32_dt_max by (simp add: clampf_def)
  finally show ?thesis .
qed

lemma frame_dt_33: "frame_dt 0 33 = 4429185 / 134217728"
proof -
  have "frame_dt 0 33 = clampf (fl32 (fl32 33 * fl32 0.001)) 0 (fl32 0.033)"
    by (simp add: frame_dt_def)
  also have "\<dots> = 4429185 / 134217728"
    unfolding fl32_millis_33 fl32_dt_max by (simp add: clampf_def)
  finally show ?thesis .
qed

lemma frame_dt_500: "frame_dt 0 500 = 4429185 / 134217728"
proof -
  have "frame_dt 0 500 = clampf (fl32 (fl32 500 * fl32 0.001)) 0 (fl32 0.033)"
    by (simp add: frame_dt_def)
  also have "\<dots> = 4429185 / 134217728"
    unfolding fl32_millis_500 fl32_dt_max by (simp add: clampf_def)
  finally show ?thesis .
qed

lemma frame_dt_100: "frame_dt 0 100 = 4429185 / 134217728"
proof -
  have "frame_dt 0 100 = clampf (fl32 (fl32 100 * fl32 0.001)) 0 (fl32 0.033)"
    by (simp add: frame_dt_def)
  also have "\<dots> = 4429185 / 134217728"
    unfolding fl32_millis_100 fl32_dt_max by (simp add: clampf_def)
  finally show ?thesis .
qed

lemma credit_inc_20: "fl32 (fl32 (10737419 / 536870912) * fl32 4) = 10737419 / 134217728"
  by (simp add: fl32_eval)

lemma credit_next_20:
  "credit_next 4 c (10737419 / 536870912) = fl32 (c + 10737419 / 134217728)"
  by (simp only: credit_next_def credit_inc_20)

lemma credit_inc_33: "fl32 (fl32 (4429185 / 134217728) * fl32 4) = 4429185 / 33554432"
  by (simp add: fl32_eval)

lemma credit_next_33:
  "credit_next 4 c (4429185 / 134217728) = fl32 (c + 4429185 / 33554432)"
  by (simp only: credit_next_def credit_inc_33)

lemma spawn_count_20ms: "spawn_count 4 0 (replicate 25 (frame_dt 0 20)) = 1"
  unfolding frame_dt_20
  by (simp add: eval_nat_numeral spawn_count_step count_step_def credit_next_20 fl32_eval
      del: spawn_count.simps(2))

lemma credit_small_20ms: "credit_small 4 0 (replicate 25 (frame_dt 0 20))"
  unfolding frame_dt_20
  by (simp add: eval_nat_numeral credit_small_step small_step_def credit_next_20 fl32_eval
      del: credit_small.simps(2))

lemma run_emitter_20ms:
  assumes "rate E = 4"
  shows "\<exists>t' P' g'. run_emitter (replicate 25 (frame_dt 0 20)) 0 P E W H g = Some (t', P', g')
           \<and> length P' = length P + 1"
proof -
  have "credit_small (rate E) 0 (replicate 25 (frame_dt 0 20))"
    unfolding assms by (rule credit_small_20ms)
  from run_emitter_count [OF this, of P W H g] show ?thesis
    unfolding assms spawn_count_20ms by auto
qed

lemma spawn_count_33ms: "spawn_count 4 0 (replicate 250 (frame_dt 0 33)) = 32"
  unfolding frame_dt_33
  by (simp add: eval_nat_numeral spawn_count_step count_step_def credit_next_33 fl32_eval
      del: spawn_count.simps(2))

text \<open>
  Ten ticks of \<open>dt = 0.1\<close> are ticks of the scheduler taken alone. In the main loop a
  frame of 100 milliseconds is clamped to \<open>0.033f\<close>, and ten such frames bring an emitter
  of rate 4 one puff.
\<close>

lemma spawn_count_100ms: "spawn_count 4 0 (replicate 10 (frame_dt 0 100)) = 1"
  unfolding frame_dt_100
  by (simp add: eval_nat_numeral spawn_count_step count_step_def credit_next_33 fl32_eval
      del: spawn_count.simps(2))

section \<open>Properties of the soft blob\<close>

lemma drawSoftBlob_length: "length (drawSoftBlob cx cy R rgb alphaPeak rings) = nat rings"
  by (simp add: drawSoftBlob_def)

lemma drawSoftBlob_nth:
  assumes "0 \<le> i" "i < rings"
  shows "drawSoftBlob cx cy R rgb alphaPeak rings ! nat i = ring cx cy R rgb alphaPeak rings i"
proof -
  have "[0..rings - 1] ! nat i = 0 + int (nat i)"
    using assms by (intro nth_upto) simp
  then show ?thesis
    using assms by (simp add: drawSoftBlob_def)
qed

text \<open>
  Claim C4. \<open>drawSoftBlob\<close> submits one fan per ring; ring \<open>i\<close> (counted from 0) has the
  radius fraction \<open>t = (i + 1) / rings\<close>, the radius \<open>t * R\<close> and the alpha
  \<open>alphaPeak * (1 - t) powr 1.6\<close>. With 8 rings the last ring, \<open>i = 7\<close>, has \<open>t = 1\<close>,
  the full radius and alpha 0.
\<close>

theorem drawSoftBlob_rings:
  "length (drawSoftBlob cx cy R rgb alphaPeak rings) = nat rings
   \<and> (\<forall>i. 0 \<le> i \<and> i < rings \<longrightarrow>
         drawSoftBlob cx cy R rgb alphaPeak rings ! nat i =
           \<lparr>fan_v = fan_vertices cx cy (ring_t i rings * R), fan_rgb = rgb,
            fan_a = alphaPeak * ((1 - ring_t i rings) powr 1.6)\<rparr>
         \<and> ring_t i rings = (real_of_int i + 1) / real_of_int rings)
   \<and> ring_t 7 8 = 1
   \<and> fan_a (drawSoftBlob cx cy R rgb alphaPeak 8 ! 7) = 0
   \<and> fan_v (drawSoftBlob cx cy R rgb alphaPeak 8 ! 7) = fan_vertices cx cy R
   \<and> fan_a (last (drawSoftBlob cx cy R rgb alphaPeak 8)) = 0"
proof (intro conjI allI impI)
  show "length (drawSoftBlob cx cy R rgb alphaPeak rings) = nat rings"
    by (rule drawSoftBlob_length)
next
  fix i assume "0 \<le> i \<and> i < rings"
  then show "drawSoftBlob cx cy R rgb alphaPeak rings ! nat i =
           \<lparr>fan_v = fan_vertices cx cy (ring_t i rings * R), fan_rgb = rgb,
            fan_a = alphaPeak * ((1 - ring_t i rings) powr 1.6)\<rparr>"
    by (simp add: drawSoftBlob_nth ring_def Let_def)
next
  fix i show "ring_t i rings = (real_of_int i + 1) / real_of_int rings"
    by (simp add: ring_t_def)
next
  show t: "ring_t 7 8 = 1"
    by (simp add: ring_t_def)
  have n: "drawSoftBlob cx cy R rgb alphaPeak 8 ! 7 = ring cx cy R rgb alphaPeak 8 7"
    using drawSoftBlob_nth [of 7 8 cx cy R rgb alphaPeak] by simp
  show "fan_a (drawSoftBlob cx cy R rgb alphaPeak 8 ! 7) = 0"
    by (simp add: n ring_def Let_def t)
  show "fan_v (drawSoftBlob cx cy R rgb alphaPeak 8 ! 7) = fan_vertices cx cy R"
    by (simp add: n ring_def Let_def t)
  have "last (drawSoftBlob cx cy R rgb alphaPeak 8) = drawSoftBlob cx cy R rgb alphaPeak 8 ! 7"
    using drawSoftBlob_length [of cx cy R rgb alphaPeak 8]
    by (subst last_conv_nth) auto
  then show "fan_a (last (drawSoftBlob cx cy R rgb alphaPeak 8)) = 0"
    by (simp add: n ring_def Let_def t)
qed

theorem drawSoftBlob_rings_witness:
  "(0::int) \<le> 3 \<and> (3::int) < 8
   \<and> fan_a (drawSoftBlob 100 100 60 (1, 1, 1) 0.18 8 ! 3) = 0.18 * ((1 / 2) powr 1.6)
   \<and> fan_a (drawSoftBlob 100 100 60 (1, 1, 1) 0.18 8 ! 7) = 0"
proof -
  have h: "(0::int) \<le> 3 \<and> (3::int) < 8"
    by simp
  have t: "ring_t 3 8 = 1 / 2"
    by (simp add: ring_t_def)
  note inst = drawSoftBlob_rings [where cx = 100 and cy = 100 and R = 60 and rgb = "(1, 1, 1)"
      and alphaPeak = "0.18" and rings = 8]
  from inst h have "drawSoftBlob 100 100 60 (1, 1, 1) 0.18 8 ! nat 3 =
      \<lparr>fan_v = fan_vertices 100 100 (ring_t 3 8 * 60), fan_rgb = (1, 1, 1),
       fan_a = 0.18 * ((1 - ring_t 3 8) powr 1.6)\<rparr>"
    by blast
  then have "fan_a (drawSoftBlob 100 100 60 (1, 1, 1) 0.18 8 ! 3) = 0.18 * ((1 / 2) powr 1.6)"
    unfolding t by simp
  moreover from inst have "fan_a (drawSoftBlob 100 100 60 (1, 1, 1) 0.18 8 ! 7) = 0"
    by blast
  ultimately show ?thesis
    by simp
qed

section \<open>Properties of the event handler and the main loop\<close>

lemma map_rate_update:
  assumes "rate e' = rate (es ! i)"
  shows "map rate (es[i := e']) = map rate es"
proof (cases "i < length es")
  case True
  have "map rate (es[i := e']) = (map rate es)[i := map rate es ! i]"
    using True assms by (simp add: map_update)
  then show ?thesis
    by simp
next
  case False
  then have "length es \<le> i"
    by simp
  then show ?thesis
    by (simp only: list_update_beyond)
qed

lemma resize_emitters_rate:
  "map rate (emitters (handle_event s (SDL_WINDOWEVENT_SIZE_CHANGED W H))) = map rate (emitters s)"
  by (simp add: handle_event_def Let_def map_rate_update)

lemma handle_event_emitters_length: "length (emitters (handle_event s ev)) = length (emitters s)"
  by (cases ev) (auto simp: handle_event_def handle_key_def Let_def split: SDL_Keycode.splits)

lemma key_down_rates:
  "map rate (emitters (handle_event s (SDL_KEYDOWN SDLK_DOWN))) = map (\<lambda>e. max 0.6 (rate e - 0.8)) (emitters s)"
  by (simp add: handle_event_def handle_key_def)

lemma key_up_rates:
  "map rate (emitters (handle_event s (SDL_KEYDOWN SDLK_UP))) = map (\<lambda>e. rate e + 0.8) (emitters s)"
  by (simp add: handle_event_def handle_key_def)

lemma rate_ok_map: "rate_ok s \<longleftrightarrow> (\<forall>r \<in> set (map rate (emitters s)). 0.6 \<le> r)"
  by (simp add: rate_ok_def)

lemma floor_after_down: "\<forall>r \<in> set (map (\<lambda>e. max c (rate e - d)) es). (c::real) \<le> r"
  by auto

lemma handle_event_rate_ok:
  assumes "rate_ok s"
  shows "rate_ok (handle_event s ev)"
proof (cases ev)
  case SDL_QUIT
  then show ?thesis
    using assms by (simp add: handle_event_def rate_ok_def)
next
  case (SDL_WINDOWEVENT_SIZE_CHANGED W H)
  then show ?thesis
    using assms by (simp only: rate_ok_map resize_emitters_rate)
next
  case (SDL_KEYDOWN k)
  show ?thesis
  proof (cases k)
    case SDLK_UP
    have "\<forall>r \<in> set (map rate (emitters s)). 0.6 \<le> r + 0.8"
    proof
      fix r assume "r \<in> set (map rate (emitters s))"
      then have "0.6 \<le> r"
        using assms unfolding rate_ok_map by blast
      then show "0.6 \<le> r + 0.8"
        by argo
    qed
    then show ?thesis
      unfolding rate_ok_map SDL_KEYDOWN SDLK_UP key_up_rates by (simp add: o_def)
  next
    case SDLK_DOWN
    show ?thesis
      unfolding rate_ok_map SDL_KEYDOWN SDLK_DOWN key_down_rates by (rule floor_after_down)
  qed (use assms SDL_KEYDOWN in \<open>simp_all add: handle_event_def handle_key_def rate_ok_def\<close>)
next
  case SDL_OTHER
  then show ?thesis
    using assms by (simp add: handle_event_def rate_ok_def)
qed

lemma poll_events_rate_ok: "rate_ok s \<Longrightarrow> rate_ok (poll_events s evs)"
  unfolding poll_events_def
  by (induction evs arbitrary: s) (simp_all add: handle_event_rate_ok)

lemma poll_events_emitters_length: "length (emitters (poll_events s evs)) = length (emitters s)"
  unfolding poll_events_def
  by (induction evs arbitrary: s) (auto simp: handle_event_emitters_length)


text \<open>A tick that ends writes the tick counter, the two timers, the puffs and the generator.\<close>

lemma tick_fields:
  assumes "tick s now = Some s'"
  shows "emitters s' = emitters s" "breeze s' = breeze s" "winW s' = winW s" "winH s' = winH s"
    "running s' = running s" "lastTicks s' = now"
  using assms by (auto simp: tick_def Let_def split: option.splits prod.splits if_splits)

lemma frame_rate_ok: "rate_ok s \<Longrightarrow> frame s f = Some s' \<Longrightarrow> rate_ok s'"
  using poll_events_rate_ok [of s "fst f"] tick_fields(1) [of "poll_events s (fst f)" "snd f" s']
  by (simp add: frame_def rate_ok_def)

lemma main_loop_rate_ok: "rate_ok s \<Longrightarrow> rate_ok (main_loop s fs)"
proof (induction fs arbitrary: s)
  case Nil
  then show ?case by simp
next
  case (Cons f fs)
  show ?case
  proof (cases "frame s f")
    case None
    then show ?thesis
      using Cons.prems by (simp add: poll_events_rate_ok)
  next
    case (Some s')
    then have "rate_ok s'"
      using Cons.prems frame_rate_ok by blast
    then show ?thesis
      using Some Cons by simp
  qed
qed

lemma frame_emitters:
  "frame s f = Some s' \<Longrightarrow> emitters s' = emitters (poll_events s (fst f))"
  by (simp add: frame_def tick_fields(1))

lemma main_loop_emitters_length: "length (emitters (main_loop s fs)) = length (emitters s)"
proof (induction fs arbitrary: s)
  case Nil
  show ?case by simp
next
  case (Cons f fs)
  show ?case
  proof (cases "frame s f")
    case None
    then show ?thesis
      by (simp add: poll_events_emitters_length)
  next
    case (Some s')
    then have "length (emitters s') = length (emitters s)"
      by (simp add: frame_emitters poll_events_emitters_length)
    then show ?thesis
      using Some Cons.IH [of s'] by simp
  qed
qed

text \<open>One frame: the emitters and the breeze are as the events of the frame left them.\<close>

lemma main_loop_one:
  assumes "running s"
  shows "emitters (main_loop s [f]) = emitters (poll_events s (fst f))"
    "breeze (main_loop s [f]) = breeze (poll_events s (fst f))"
proof -
  show "emitters (main_loop s [f]) = emitters (poll_events s (fst f))"
    using assms by (cases "frame s f") (simp_all add: frame_emitters)
  show "breeze (main_loop s [f]) = breeze (poll_events s (fst f))"
    using assms tick_fields(2) [of "poll_events s (fst f)" "snd f"]
    by (cases "frame s f") (simp_all add: frame_def)
qed

lemma main_init_rate_ok: "rate_ok (main_init t g)"
  by (simp add: main_init_def rate_ok_def)

text \<open>
  Claim C7. The rates start at 4.0 and 3.2. After any sequence of events, and after any
  run of the main loop (events and ticks, frame after frame), every emitter's rate is at
  least 0.6: \<open>SDLK_DOWN\<close> sets \<open>max 0.6 (rate - 0.8)\<close>, \<open>SDLK_UP\<close> adds 0.8, and nothing
  else writes a rate.
\<close>

theorem rate_floor:
  "map rate (emitters (main_init t g)) = [4.0, 3.2]
   \<and> (\<forall>e \<in> set (emitters (poll_events (main_init t g) evs)). 0.6 \<le> rate e)
   \<and> (\<forall>e \<in> set (emitters (main_loop (main_init t g) fs)). 0.6 \<le> rate e)
   \<and> ((\<forall>e \<in> set (emitters s). 0.6 \<le> rate e) \<longrightarrow>
        (\<forall>e \<in> set (emitters (handle_event s ev)). 0.6 \<le> rate e))
   \<and> map rate (emitters (handle_event s (SDL_KEYDOWN SDLK_DOWN)))
        = map (\<lambda>e. max 0.6 (rate e - 0.8)) (emitters s)
   \<and> map rate (emitters (handle_event s (SDL_KEYDOWN SDLK_UP)))
        = map (\<lambda>e. rate e + 0.8) (emitters s)"
proof (intro conjI impI)
  show "map rate (emitters (main_init t g)) = [4.0, 3.2]"
    by (simp add: main_init_def)
  show "\<forall>e \<in> set (emitters (poll_events (main_init t g) evs)). 0.6 \<le> rate e"
    using poll_events_rate_ok [OF main_init_rate_ok] by (simp only: rate_ok_def)
  show "\<forall>e \<in> set (emitters (main_loop (main_init t g) fs)). 0.6 \<le> rate e"
    using main_loop_rate_ok [OF main_init_rate_ok] by (simp only: rate_ok_def)
  show "\<forall>e \<in> set (emitters (handle_event s ev)). 0.6 \<le> rate e"
    if "\<forall>e \<in> set (emitters s). 0.6 \<le> rate e"
    using that handle_event_rate_ok [of s ev] by (simp only: rate_ok_def)
  show "map rate (emitters (handle_event s (SDL_KEYDOWN SDLK_DOWN)))
        = map (\<lambda>e. max 0.6 (rate e - 0.8)) (emitters s)"
    by (rule key_down_rates)
  show "map rate (emitters (handle_event s (SDL_KEYDOWN SDLK_UP)))
        = map (\<lambda>e. rate e + 0.8) (emitters s)"
    by (rule key_up_rates)
qed

theorem rate_floor_witness:
  "map rate (emitters (poll_events (main_init 0 rng0) (replicate 6 (SDL_KEYDOWN SDLK_DOWN)))) = [0.6, 0.6]
   \<and> 0.6 \<le> rate (emitters (poll_events (main_init 0 rng0) (replicate 6 (SDL_KEYDOWN SDLK_DOWN))) ! 0)
   \<and> 0.6 \<le> rate (emitters (poll_events (main_init 0 rng0) (replicate 6 (SDL_KEYDOWN SDLK_DOWN))) ! 1)
   \<and> map rate (emitters (handle_event (main_init 0 rng0) (SDL_KEYDOWN SDLK_UP))) = [4.8, 4.0]"
proof -
  let ?s = "poll_events (main_init 0 rng0) (replicate 6 (SDL_KEYDOWN SDLK_DOWN))"
  have v: "map rate (emitters ?s) = [0.6, 0.6]"
    by (simp add: eval_nat_numeral poll_events_def handle_event_def handle_key_def main_init_def)
  have l: "length (emitters ?s) = 2"
    by (simp add: poll_events_emitters_length main_init_def)
  then have m: "emitters ?s ! 0 \<in> set (emitters ?s)" "emitters ?s ! 1 \<in> set (emitters ?s)"
    by simp_all
  note inst = rate_floor [where t = 0 and g = rng0 and evs = "replicate 6 (SDL_KEYDOWN SDLK_DOWN)"
      and s = "main_init 0 rng0"]
  from inst have b: "\<forall>e \<in> set (emitters ?s). 0.6 \<le> rate e"
    by blast
  from inst have u: "map rate (emitters (handle_event (main_init 0 rng0) (SDL_KEYDOWN SDLK_UP)))
      = map (\<lambda>e. rate e + 0.8) (emitters (main_init 0 rng0))"
    by blast
  have "map rate (emitters (handle_event (main_init 0 rng0) (SDL_KEYDOWN SDLK_UP))) = [4.8, 4.0]"
    unfolding u by (simp add: main_init_def)
  with v b m show ?thesis
    by blast
qed

lemma two_emitters: "length es = 2 \<Longrightarrow> \<exists>a b. es = [a, b]"
  by (cases es; cases "tl es") auto

lemma resize_two:
  assumes "emitters s = [a, b]"
  shows "emitters (handle_event s (SDL_WINDOWEVENT_SIZE_CHANGED W H)) =
     [a\<lparr>x0 := real_of_int W * 0.18, x1 := real_of_int W * 0.38, e_y := 110\<rparr>,
      b\<lparr>x0 := real_of_int W * 0.55, x1 := real_of_int W * 0.82, e_y := 110\<rparr>]"
  using assms by (simp add: handle_event_def Let_def)

lemma main_init_emitters_length: "length (emitters (main_init t g)) = 2"
  by (simp add: main_init_def)

text \<open>
  Claim C9. A resize to width \<open>W\<close> sets the span of the left emitter, \<open>emitters[0]\<close>, to
  \<open>(0.18 * W, 0.38 * W)\<close>; the program always has its two emitters. At the start, 960 by
  600, the span is \<open>(172.8, 364.8)\<close>; after a resize to 480 by 300 it is \<open>(86.4, 182.4)\<close>.
\<close>

theorem resize_left_span:
  "(length (emitters s) = 2 \<longrightarrow>
      x0 (emitters (handle_event s (SDL_WINDOWEVENT_SIZE_CHANGED W H)) ! 0) = real_of_int W * 0.18
      \<and> x1 (emitters (handle_event s (SDL_WINDOWEVENT_SIZE_CHANGED W H)) ! 0) = real_of_int W * 0.38)
   \<and> length (emitters (main_loop (main_init t g) fs)) = 2
   \<and> winW (main_init t g) = 960 \<and> winH (main_init t g) = 600
   \<and> x0 (emitters (main_init t g) ! 0) = 172.8 \<and> x1 (emitters (main_init t g) ! 0) = 364.8
   \<and> x0 (emitters (handle_event (main_init t g) (SDL_WINDOWEVENT_SIZE_CHANGED 480 300)) ! 0) = 86.4
   \<and> x1 (emitters (handle_event (main_init t g) (SDL_WINDOWEVENT_SIZE_CHANGED 480 300)) ! 0) = 182.4"
proof (intro conjI impI)
  assume "length (emitters s) = 2"
  then obtain a b where ab: "emitters s = [a, b]"
    using two_emitters by blast
  show "x0 (emitters (handle_event s (SDL_WINDOWEVENT_SIZE_CHANGED W H)) ! 0) = real_of_int W * 0.18"
    and "x1 (emitters (handle_event s (SDL_WINDOWEVENT_SIZE_CHANGED W H)) ! 0) = real_of_int W * 0.38"
    by (simp_all add: resize_two [OF ab])
next
  show "length (emitters (main_loop (main_init t g) fs)) = 2"
    by (simp add: main_loop_emitters_length main_init_emitters_length)
next
  show "winW (main_init t g) = 960" "winH (main_init t g) = 600"
    "x0 (emitters (main_init t g) ! 0) = 172.8" "x1 (emitters (main_init t g) ! 0) = 364.8"
    by (simp_all add: main_init_def)
next
  have ab: "emitters (main_init t g) =
      [\<lparr>x0 = real_of_int 960 * 0.18, x1 = real_of_int 960 * 0.38, e_y = 110, rate = 4.0\<rparr>,
       \<lparr>x0 = real_of_int 960 * 0.55, x1 = real_of_int 960 * 0.82, e_y = 110, rate = 3.2\<rparr>]"
    by (simp add: main_init_def)
  show "x0 (emitters (handle_event (main_init t g) (SDL_WINDOWEVENT_SIZE_CHANGED 480 300)) ! 0) = 86.4"
    and "x1 (emitters (handle_event (main_init t g) (SDL_WINDOWEVENT_SIZE_CHANGED 480 300)) ! 0) = 182.4"
    by (simp_all add: resize_two [OF ab])
qed

theorem resize_left_span_witness:
  "length (emitters (main_init 0 rng0)) = 2
   \<and> x0 (emitters (handle_event (main_init 0 rng0) (SDL_WINDOWEVENT_SIZE_CHANGED 1920 1080)) ! 0) = 345.6
   \<and> x1 (emitters (handle_event (main_init 0 rng0) (SDL_WINDOWEVENT_SIZE_CHANGED 1920 1080)) ! 0) = 729.6
   \<and> x0 (emitters (handle_event (main_init 0 rng0) (SDL_WINDOWEVENT_SIZE_CHANGED 480 300)) ! 0) = 86.4
   \<and> x1 (emitters (handle_event (main_init 0 rng0) (SDL_WINDOWEVENT_SIZE_CHANGED 480 300)) ! 0) = 182.4"
proof -
  have l: "length (emitters (main_init 0 rng0)) = 2"
    by (rule main_init_emitters_length)
  from resize_left_span [where s = "main_init 0 rng0" and W = 1920 and H = 1080 and t = 0 and g = rng0] l
  show ?thesis
    by simp
qed

text \<open>
  Claim C10. A resize event, whatever the new width and height, leaves the rates of the
  emitters, the breeze, the puffs, the two spawn timers, \<open>running\<close>, the tick counter and
  the generator as they were. It stores the new width and height, and for the two
  emitters it sets the spans from the width and the emission height to 110, a constant
  that the new height does not scale.
\<close>

theorem resize_frame:
  "map rate (emitters (handle_event s (SDL_WINDOWEVENT_SIZE_CHANGED W H))) = map rate (emitters s)
   \<and> breeze (handle_event s (SDL_WINDOWEVENT_SIZE_CHANGED W H)) = breeze s
   \<and> puffs (handle_event s (SDL_WINDOWEVENT_SIZE_CHANGED W H)) = puffs s
   \<and> emitterTimerA (handle_event s (SDL_WINDOWEVENT_SIZE_CHANGED W H)) = emitterTimerA s
   \<and> emitterTimerB (handle_event s (SDL_WINDOWEVENT_SIZE_CHANGED W H)) = emitterTimerB s
   \<and> running (handle_event s (SDL_WINDOWEVENT_SIZE_CHANGED W H)) = running s
   \<and> lastTicks (handle_event s (SDL_WINDOWEVENT_SIZE_CHANGED W H)) = lastTicks s
   \<and> seed (handle_event s (SDL_WINDOWEVENT_SIZE_CHANGED W H)) = seed s
   \<and> winW (handle_event s (SDL_WINDOWEVENT_SIZE_CHANGED W H)) = W
   \<and> winH (handle_event s (SDL_WINDOWEVENT_SIZE_CHANGED W H)) = H
   \<and> length (emitters (handle_event s (SDL_WINDOWEVENT_SIZE_CHANGED W H))) = length (emitters s)
   \<and> (length (emitters s) = 2 \<longrightarrow>
        map e_y (emitters (handle_event s (SDL_WINDOWEVENT_SIZE_CHANGED W H))) = [110, 110]
        \<and> map x0 (emitters (handle_event s (SDL_WINDOWEVENT_SIZE_CHANGED W H)))
             = [real_of_int W * 0.18, real_of_int W * 0.55]
        \<and> map x1 (emitters (handle_event s (SDL_WINDOWEVENT_SIZE_CHANGED W H)))
             = [real_of_int W * 0.38, real_of_int W * 0.82])"
proof (intro conjI impI)
  show "map rate (emitters (handle_event s (SDL_WINDOWEVENT_SIZE_CHANGED W H))) = map rate (emitters s)"
    by (rule resize_emitters_rate)
  show "length (emitters (handle_event s (SDL_WINDOWEVENT_SIZE_CHANGED W H))) = length (emitters s)"
    by (rule handle_event_emitters_length)
  show "breeze (handle_event s (SDL_WINDOWEVENT_SIZE_CHANGED W H)) = breeze s"
    "puffs (handle_event s (SDL_WINDOWEVENT_SIZE_CHANGED W H)) = puffs s"
    "emitterTimerA (handle_event s (SDL_WINDOWEVENT_SIZE_CHANGED W H)) = emitterTimerA s"
    "emitterTimerB (handle_event s (SDL_WINDOWEVENT_SIZE_CHANGED W H)) = emitterTimerB s"
    "running (handle_event s (SDL_WINDOWEVENT_SIZE_CHANGED W H)) = running s"
    "lastTicks (handle_event s (SDL_WINDOWEVENT_SIZE_CHANGED W H)) = lastTicks s"
    "seed (handle_event s (SDL_WINDOWEVENT_SIZE_CHANGED W H)) = seed s"
    "winW (handle_event s (SDL_WINDOWEVENT_SIZE_CHANGED W H)) = W"
    "winH (handle_event s (SDL_WINDOWEVENT_SIZE_CHANGED W H)) = H"
    by (simp_all add: handle_event_def Let_def)
next
  assume "length (emitters s) = 2"
  then obtain a b where ab: "emitters s = [a, b]"
    using two_emitters by blast
  show "map e_y (emitters (handle_event s (SDL_WINDOWEVENT_SIZE_CHANGED W H))) = [110, 110]"
    "map x0 (emitters (handle_event s (SDL_WINDOWEVENT_SIZE_CHANGED W H)))
             = [real_of_int W * 0.18, real_of_int W * 0.55]"
    "map x1 (emitters (handle_event s (SDL_WINDOWEVENT_SIZE_CHANGED W H)))
             = [real_of_int W * 0.38, real_of_int W * 0.82]"
    by (simp_all add: resize_two [OF ab])
qed


theorem resize_frame_witness:
  "length (emitters main1) = 2
   \<and> map rate (emitters (handle_event main1 (SDL_WINDOWEVENT_SIZE_CHANGED 0 0))) = [4.8, 4.0]
   \<and> breeze (handle_event main1 (SDL_WINDOWEVENT_SIZE_CHANGED 0 0)) = 16
   \<and> puffs (handle_event main1 (SDL_WINDOWEVENT_SIZE_CHANGED 0 0)) = puffs main1
   \<and> map e_y (emitters (handle_event main1 (SDL_WINDOWEVENT_SIZE_CHANGED 0 0))) = [110, 110]
   \<and> map x0 (emitters (handle_event main1 (SDL_WINDOWEVENT_SIZE_CHANGED 0 0))) = [0, 0]
   \<and> map e_y (emitters (handle_event main1 (SDL_WINDOWEVENT_SIZE_CHANGED 1920 1080))) = [110, 110]"
proof -
  have run: "running (main_init 0 rng0)"
    by (simp add: main_init_def)
  have e: "emitters main1 = emitters (poll_events (main_init 0 rng0) [SDL_KEYDOWN SDLK_UP, SDL_KEYDOWN SDLK_RIGHT])"
    unfolding main1_def using main_loop_one(1) [OF run] by simp
  have l: "length (emitters main1) = 2"
    unfolding e by (simp add: poll_events_emitters_length main_init_def)
  have r: "map rate (emitters main1) = [4.8, 4.0]"
    unfolding e by (simp add: poll_events_def handle_event_def handle_key_def main_init_def)
  have "breeze main1 = breeze (poll_events (main_init 0 rng0) [SDL_KEYDOWN SDLK_UP, SDL_KEYDOWN SDLK_RIGHT])"
    unfolding main1_def using main_loop_one(2) [OF run] by simp
  then have b: "breeze main1 = 16"
    by (simp add: poll_events_def handle_event_def handle_key_def main_init_def)
  from resize_frame [where s = main1 and W = 0 and H = 0]
    resize_frame [where s = main1 and W = 1920 and H = 1080] l
  show ?thesis
    unfolding r b by simp
qed


section \<open>The spawn scheduler in the main loop\<close>

text \<open>
  Over frames without events the two timers of \<open>main\<close> follow the credit of the scheduler,
  with the frame times that the tick counter gives.
\<close>

lemma main_loop_timers:
  assumes "\<forall>f \<in> set fs. fst f = []" and "running s"
    and "credit_small (rate (emitters s ! 0)) (emitterTimerA s) (frame_dts (lastTicks s) fs)"
    and "credit_small (rate (emitters s ! 1)) (emitterTimerB s) (frame_dts (lastTicks s) fs)"
  shows "emitterTimerA (main_loop s fs) =
           credit_after (rate (emitters s ! 0)) (emitterTimerA s) (frame_dts (lastTicks s) fs)
       \<and> emitterTimerB (main_loop s fs) =
           credit_after (rate (emitters s ! 1)) (emitterTimerB s) (frame_dts (lastTicks s) fs)"
  using assms
proof (induction fs arbitrary: s)
  case Nil
  show ?case by simp
next
  case (Cons f fs)
  let ?dt = "frame_dt (lastTicks s) (snd f)"
  let ?cA = "credit_next (rate (emitters s ! 0)) (emitterTimerA s) ?dt"
  let ?cB = "credit_next (rate (emitters s ! 1)) (emitterTimerB s) ?dt"
  from Cons.prems(3) have sA: "?cA < 16777216"
    and rA: "credit_small (rate (emitters s ! 0)) (?cA - real (nat \<lfloor>?cA\<rfloor>)) (frame_dts (snd f) fs)"
    by simp_all
  from Cons.prems(4) have sB: "?cB < 16777216"
    and rB: "credit_small (rate (emitters s ! 1)) (?cB - real (nat \<lfloor>?cB\<rfloor>)) (frame_dts (snd f) fs)"
    by simp_all
  from tick_scheduler [OF sA sB] obtain s' where t: "tick s (snd f) = Some s'"
    and tA: "emitterTimerA s' = ?cA - real (nat \<lfloor>?cA\<rfloor>)"
    and tB: "emitterTimerB s' = ?cB - real (nat \<lfloor>?cB\<rfloor>)"
    by blast
  have ev: "fst f = []"
    using Cons.prems(1) by simp
  then have fr: "frame s f = Some s'"
    using t by (simp add: frame_def poll_events_def)
  note fields = tick_fields [OF t]
  have "emitterTimerA (main_loop s' fs) =
           credit_after (rate (emitters s' ! 0)) (emitterTimerA s') (frame_dts (lastTicks s') fs)
       \<and> emitterTimerB (main_loop s' fs) =
           credit_after (rate (emitters s' ! 1)) (emitterTimerB s') (frame_dts (lastTicks s') fs)"
  proof (rule Cons.IH)
    show "\<forall>f \<in> set fs. fst f = []"
      using Cons.prems(1) by simp
    show "running s'"
      using Cons.prems(2) fields(5) by simp
    show "credit_small (rate (emitters s' ! 0)) (emitterTimerA s') (frame_dts (lastTicks s') fs)"
      using rA by (simp add: fields(1) fields(6) tA)
    show "credit_small (rate (emitters s' ! 1)) (emitterTimerB s') (frame_dts (lastTicks s') fs)"
      using rB by (simp add: fields(1) fields(6) tB)
  qed
  then show ?case
    using Cons.prems(2) fr by (simp add: fields(1) fields(6) tA tB)
qed

lemma frames_every_events: "\<forall>f \<in> set (frames_every step now n). fst f = []"
  by (induction n arbitrary: now) simp_all

lemma frames_every_dts: "frame_dts now (frames_every step now n) = replicate n (frame_dt 0 step)"
  by (induction n arbitrary: now) (simp_all add: frame_dt_def)

lemma credit_after_step:
  "credit_after R credit (dt # dts) = after_step (credit_next R credit dt) R dts"
  by (simp add: after_step_def)

lemma credit_inc_20_B:
  "fl32 (fl32 (10737419 / 536870912) * fl32 (16 / 5)) = 8589935 / 134217728"
  by (simp add: fl32_eval)

lemma credit_next_20_B:
  "credit_next (16 / 5) c (10737419 / 536870912) = fl32 (c + 8589935 / 134217728)"
  by (simp only: credit_next_def credit_inc_20_B)

lemma credit_small_20ms_B: "credit_small 3.2 0 (replicate 25 (frame_dt 0 20))"
  unfolding frame_dt_20
  by (simp add: eval_nat_numeral credit_small_step small_step_def credit_next_20_B fl32_eval
      del: credit_small.simps(2))

lemma credit_after_20ms: "credit_after 4 0 (replicate 25 (frame_dt 0 20)) = 8388607 / 8388608"
  unfolding frame_dt_20
  by (simp add: eval_nat_numeral credit_after_step after_step_def credit_next_20 fl32_eval
      del: credit_after.simps(2))

lemma credit_after_20ms_B:
  "credit_after 3.2 0 (replicate 25 (frame_dt 0 20)) = 10066331 / 16777216"
  unfolding frame_dt_20
  by (simp add: eval_nat_numeral credit_after_step after_step_def credit_next_20_B fl32_eval
      del: credit_after.simps(2))

text \<open>
  Half a second of the program, 25 frames of 20 milliseconds from the start, whatever the
  generator draws: the first emitter has spawned one puff (\<open>spawn_count_20ms\<close>), and its
  credit is one float below 1; in exact arithmetic it would have spawned the second puff
  in the last of these frames. The credit of the second emitter is \<open>0.60000008\<close>.
\<close>

lemma main_loop_frames20:
  "emitterTimerA (main_loop (main_init 0 g) frames20) = 8388607 / 8388608
   \<and> emitterTimerB (main_loop (main_init 0 g) frames20) = 10066331 / 16777216"
proof -
  let ?s = "main_init 0 g"
  have r: "rate (emitters ?s ! 0) = 4" "rate (emitters ?s ! 1) = 3.2"
    "emitterTimerA ?s = 0" "emitterTimerB ?s = 0" "lastTicks ?s = 0"
    by (simp_all add: main_init_def)
  have d: "frame_dts (lastTicks ?s) frames20 = replicate 25 (frame_dt 0 20)"
    unfolding r frames20_def by (rule frames_every_dts)
  have "emitterTimerA (main_loop ?s frames20) =
           credit_after (rate (emitters ?s ! 0)) (emitterTimerA ?s) (frame_dts (lastTicks ?s) frames20)
       \<and> emitterTimerB (main_loop ?s frames20) =
           credit_after (rate (emitters ?s ! 1)) (emitterTimerB ?s) (frame_dts (lastTicks ?s) frames20)"
  proof (rule main_loop_timers)
    show "\<forall>f \<in> set frames20. fst f = []"
      unfolding frames20_def by (rule frames_every_events)
    show "running ?s"
      by (simp add: main_init_def)
    show "credit_small (rate (emitters ?s ! 0)) (emitterTimerA ?s) (frame_dts (lastTicks ?s) frames20)"
      unfolding d unfolding r by (rule credit_small_20ms)
    show "credit_small (rate (emitters ?s ! 1)) (emitterTimerB ?s) (frame_dts (lastTicks ?s) frames20)"
      unfolding d unfolding r by (rule credit_small_20ms_B)
  qed
  then show ?thesis
    unfolding d unfolding r credit_after_20ms credit_after_20ms_B .
qed

text \<open>
  The spawn loops of the program end. An event raises a rate by 0.8 at most, and while
  the rates are below \<open>2 ^ 22\<close> the credit of a tick stays below \<open>2 ^ 24\<close>: in a run with at
  most five million events every tick has a result. (The rates of the source are floats
  and stop growing at \<open>2 ^ 24\<close>, where adding \<open>0.8f\<close> changes nothing; its credit stays
  below \<open>2 ^ 24\<close> for good. The rates of the model are not rounded, and have no such bound.)
\<close>

lemma tick_ends:
  assumes "rates_within B s" "B \<le> 4194304"
  shows "\<exists>s'. tick s now = Some s' \<and> rates_within B s'"
proof -
  let ?dt = "frame_dt (lastTicks s) now"
  let ?cA = "credit_next (rate (emitters s ! 0)) (emitterTimerA s) ?dt"
  let ?cB = "credit_next (rate (emitters s ! 1)) (emitterTimerB s) ?dt"
  have l: "length (emitters s) = 2"
    using assms(1) by (simp add: rates_within_def)
  then have mem: "emitters s ! 0 \<in> set (emitters s)" "emitters s ! 1 \<in> set (emitters s)"
    by simp_all
  have b: "\<forall>e \<in> set (emitters s). 0 \<le> rate e \<and> rate e \<le> B"
    using assms(1) by (simp add: rates_within_def)
  have "0 \<le> rate (emitters s ! 0) \<and> rate (emitters s ! 0) \<le> B"
    "0 \<le> rate (emitters s ! 1) \<and> rate (emitters s ! 1) \<le> B"
    using b mem by blast+
  then have r: "0 \<le> rate (emitters s ! 0)" "rate (emitters s ! 0) \<le> 4194304"
    "0 \<le> rate (emitters s ! 1)" "rate (emitters s ! 1) \<le> 4194304"
    using assms(2) by linarith+
  have t: "0 \<le> emitterTimerA s" "emitterTimerA s < 1" "0 \<le> emitterTimerB s" "emitterTimerB s < 1"
    using assms(1) by (simp_all add: rates_within_def)
  have d: "0 \<le> ?dt" "?dt \<le> 1"
    using frame_dt_range [of "lastTicks s" now] by simp_all
  have cA: "0 \<le> ?cA" "?cA < 16777216"
    using credit_next_bound [OF t(1) t(2) d r(1) r(2)] by simp_all
  have cB: "0 \<le> ?cB" "?cB < 16777216"
    using credit_next_bound [OF t(3) t(4) d r(3) r(4)] by simp_all
  from tick_scheduler [OF cA(2) cB(2)] obtain s' where s': "tick s now = Some s'"
    and tA: "emitterTimerA s' = ?cA - real (nat \<lfloor>?cA\<rfloor>)"
    and tB: "emitterTimerB s' = ?cB - real (nat \<lfloor>?cB\<rfloor>)"
    by blast
  have fA: "real (nat \<lfloor>?cA\<rfloor>) = of_int \<lfloor>?cA\<rfloor>"
    using cA(1) by simp
  have fB: "real (nat \<lfloor>?cB\<rfloor>) = of_int \<lfloor>?cB\<rfloor>"
    using cB(1) by simp
  have "0 \<le> emitterTimerA s' \<and> emitterTimerA s' < 1"
    unfolding tA fA by linarith
  moreover have "0 \<le> emitterTimerB s' \<and> emitterTimerB s' < 1"
    unfolding tB fB by linarith
  ultimately have "rates_within B s'"
    using assms(1) tick_fields(1) [OF s'] by (simp add: rates_within_def)
  then show ?thesis
    using s' by blast
qed

lemma handle_event_timers:
  "emitterTimerA (handle_event s ev) = emitterTimerA s
   \<and> emitterTimerB (handle_event s ev) = emitterTimerB s"
  by (cases ev) (auto simp: handle_event_def handle_key_def Let_def split: SDL_Keycode.splits)

lemma handle_event_rate_le:
  assumes "length (emitters s) = 2" "\<forall>e \<in> set (emitters s). 0 \<le> rate e \<and> rate e \<le> B"
  shows "\<forall>r \<in> set (map rate (emitters (handle_event s ev))). 0 \<le> r \<and> r \<le> B + 0.8"
proof -
  have b: "\<forall>r \<in> set (map rate (emitters s)). 0 \<le> r \<and> r \<le> B"
    using assms(2) by simp
  have unchanged: "\<forall>r \<in> set (map rate (emitters s)). 0 \<le> r \<and> r \<le> B + 0.8"
  proof
    fix r assume "r \<in> set (map rate (emitters s))"
    then have "0 \<le> r \<and> r \<le> B"
      using b by blast
    then show "0 \<le> r \<and> r \<le> B + 0.8"
      by argo
  qed
  show ?thesis
  proof (cases ev)
    case SDL_QUIT
    then show ?thesis
      using unchanged by (simp add: handle_event_def)
  next
    case (SDL_WINDOWEVENT_SIZE_CHANGED W H)
    then show ?thesis
      using unchanged by (simp only: resize_emitters_rate)
  next
    case SDL_OTHER
    then show ?thesis
      using unchanged by (simp add: handle_event_def)
  next
    case (SDL_KEYDOWN k)
    show ?thesis
    proof (cases k)
      case SDLK_UP
      have "\<forall>e \<in> set (emitters s). 0 \<le> rate e + 0.8 \<and> rate e + 0.8 \<le> B + 0.8"
      proof
        fix e assume "e \<in> set (emitters s)"
        then have "0 \<le> rate e \<and> rate e \<le> B"
          using assms(2) by blast
        then show "0 \<le> rate e + 0.8 \<and> rate e + 0.8 \<le> B + 0.8"
          by argo
      qed
      then show ?thesis
        unfolding SDL_KEYDOWN SDLK_UP key_up_rates by simp
    next
      case SDLK_DOWN
      have "\<forall>e \<in> set (emitters s). 0 \<le> max 0.6 (rate e - 0.8) \<and> max 0.6 (rate e - 0.8) \<le> B + 0.8"
      proof
        fix e assume "e \<in> set (emitters s)"
        then have "0 \<le> rate e \<and> rate e \<le> B"
          using assms(2) by blast
        then have "(0::real) \<le> 0.6 \<and> 0.6 \<le> B + 0.8 \<and> rate e - 0.8 \<le> B + 0.8"
          by argo
        then show "0 \<le> max 0.6 (rate e - 0.8) \<and> max 0.6 (rate e - 0.8) \<le> B + 0.8"
          by (simp only: max_def split: if_splits) argo
      qed
      then show ?thesis
        unfolding SDL_KEYDOWN SDLK_DOWN key_down_rates by simp
    qed (use unchanged SDL_KEYDOWN in \<open>simp_all add: handle_event_def handle_key_def\<close>)
  qed
qed

lemma handle_event_rates_within:
  assumes "rates_within B s"
  shows "rates_within (B + 0.8) (handle_event s ev)"
proof -
  have l: "length (emitters s) = 2"
    and b: "\<forall>e \<in> set (emitters s). 0 \<le> rate e \<and> rate e \<le> B"
    using assms by (simp_all add: rates_within_def)
  have "\<forall>e \<in> set (emitters (handle_event s ev)). 0 \<le> rate e \<and> rate e \<le> B + 0.8"
    using handle_event_rate_le [OF l b, of ev] by simp
  then show ?thesis
    using assms handle_event_timers [of s ev] handle_event_emitters_length [of s ev]
    unfolding rates_within_def by simp
qed

lemma poll_events_rates_within:
  "rates_within B s \<Longrightarrow> rates_within (B + 0.8 * real (length evs)) (poll_events s evs)"
proof (induction evs arbitrary: s B)
  case Nil
  then show ?case
    by (simp add: poll_events_def)
next
  case (Cons ev evs)
  have "rates_within (B + 0.8) (handle_event s ev)"
    using Cons.prems by (rule handle_event_rates_within)
  from Cons.IH [OF this]
  have x: "rates_within (B + 0.8 + 0.8 * real (length evs)) (poll_events (handle_event s ev) evs)" .
  have eq: "B + 0.8 + 0.8 * real (length evs) = B + 0.8 * real (length (ev # evs))"
    by (simp add: algebra_simps)
  have pe: "poll_events (handle_event s ev) evs = poll_events s (ev # evs)"
    by (simp add: poll_events_def)
  show ?case
    using x unfolding eq pe .
qed

lemma main_loop_ticks_end_from:
  assumes "rates_within B s" "B + 0.8 * real (length (concat (map fst fs))) \<le> 4194304"
  shows "ticks_end s fs"
  using assms
proof (induction fs arbitrary: s B)
  case Nil
  show ?case by simp
next
  case (Cons f fs)
  let ?B = "B + 0.8 * real (length (fst f))"
  have n: "real (length (concat (map fst (f # fs))))
      = real (length (fst f)) + real (length (concat (map fst fs)))"
    by simp
  have rest: "?B + 0.8 * real (length (concat (map fst fs))) \<le> 4194304"
    using Cons.prems(2) unfolding n by argo
  have "0 \<le> 0.8 * real (length (concat (map fst fs)))"
    by simp
  then have small: "?B \<le> 4194304"
    using rest by argo
  have "rates_within ?B (poll_events s (fst f))"
    using Cons.prems(1) by (rule poll_events_rates_within)
  from tick_ends [OF this small, of "snd f"] obtain s' where
    s': "frame s f = Some s'" and w: "rates_within ?B s'"
    unfolding frame_def by blast
  from Cons.IH [OF w rest] show ?case
    by (simp add: s')
qed

lemma main_init_rates_within: "rates_within 4 (main_init t g)"
  by (simp add: rates_within_def main_init_def)

lemma main_loop_ticks_end:
  assumes "length (concat (map fst fs)) \<le> 5000000"
  shows "ticks_end (main_init t g) fs"
proof -
  have "real (length (concat (map fst fs))) \<le> 5000000"
    using assms by simp
  then have "4 + 0.8 * real (length (concat (map fst fs))) \<le> 4194304"
    by argo
  with main_init_rates_within show ?thesis
    by (rule main_loop_ticks_end_from)
qed

section \<open>The whiteness of the puffs of the program\<close>

lemma spawnPuff_whiten_ok: "whiten_ok P \<Longrightarrow> whiten_ok (fst (spawnPuff P E W H g))"
proof -
  assume ok: "whiten_ok P"
  obtain p where p: "fst (spawnPuff P E W H g) = P @ [p]"
    using spawnPuff_fst by blast
  then have "p = last (fst (spawnPuff P E W H g))"
    by simp
  then have "whiten p = 0.2"
    by (simp add: spawnPuff_last)
  then show ?thesis
    using ok by (simp add: p whiten_ok_def)
qed

text \<open>Whenever the spawn loop ends, the puffs it has appended are in range.\<close>

lemma spawn_while_whiten_ok:
  assumes "spawn_while timer P E W H g = Some r"
  shows "whiten_ok P \<longrightarrow> whiten_ok (fst (snd r))"
proof -
  let ?Q = "\<lambda>(x :: ((((real \<times> Puff list) \<times> Emitter) \<times> int) \<times> int) \<times> rng)
      (r :: real \<times> Puff list \<times> rng).
      whiten_ok (snd (fst (fst (fst (fst x))))) \<longrightarrow> whiten_ok (fst (snd r))"
  have "?Q (((((timer, P), E), W), H), g) r"
  proof (rule spawn_while.raw_induct [where Pa = "\<lambda>x r.
        whiten_ok (snd (fst (fst (fst (fst x))))) \<longrightarrow> whiten_ok (fst (snd r))", OF _ assms])
    fix sw :: "real \<Rightarrow> Puff list \<Rightarrow> Emitter \<Rightarrow> int \<Rightarrow> int \<Rightarrow> rng \<Rightarrow> (real \<times> Puff list \<times> rng) option"
    fix timer P E W H g r
    assume ih: "\<And>timer P E W H g y. sw timer P E W H g = Some y \<Longrightarrow>
        ?Q (((((timer, P), E), W), H), g) y"
      and eq: "(if 1 \<le> timer
          then sw (fl32 (timer - 1)) (fst (spawnPuff P E W H g)) E W H (snd (spawnPuff P E W H g))
          else Some (timer, P, g)) = Some r"
    show "?Q (((((timer, P), E), W), H), g) r"
    proof (cases "1 \<le> timer")
      case False
      then show ?thesis
        using eq by auto
    next
      case True
      then have "sw (fl32 (timer - 1)) (fst (spawnPuff P E W H g)) E W H
          (snd (spawnPuff P E W H g)) = Some r"
        using eq by simp
      from ih [OF this] show ?thesis
        by (simp add: spawnPuff_whiten_ok)
    qed
  qed
  then show ?thesis
    by simp
qed

lemma emitter_tick_whiten_ok:
  "emitter_tick dt timer P E W H g = Some (t', P', g') \<Longrightarrow> whiten_ok P \<Longrightarrow> whiten_ok P'"
  unfolding emitter_tick_def using spawn_while_whiten_ok by fastforce

lemma updatePuffs_whiten_ok: "whiten_ok (updatePuffs P dt bz W H)"
  by (auto simp: whiten_ok_def updatePuffs_def updatePuff_whiten_eq clampf_def)

text \<open>What \<open>tick\<close> hands to \<open>updatePuffs\<close>: the puffs of the state and the puffs spawned in
  this tick, with the frame time.\<close>

lemma tick_update_input:
  assumes "tick s now = Some s'"
  shows "\<exists>P3. puffs s' = updatePuffs P3 (frame_dt (lastTicks s) now) (breeze s) (winW s) (winH s)
        \<and> (whiten_ok (puffs s) \<longrightarrow> whiten_ok P3)"
proof -
  let ?dt = "frame_dt (lastTicks s) now"
  obtain tA P1 g1 where a: "emitter_tick ?dt (emitterTimerA s) (puffs s) (emitters s ! 0) (winW s) (winH s) (seed s) = Some (tA, P1, g1)"
    using assms by (auto simp: tick_def Let_def split: option.splits)
  obtain tB P2 g2 where b: "emitter_tick ?dt (emitterTimerB s) P1 (emitters s ! 1) (winW s) (winH s) g1 = Some (tB, P2, g2)"
    using assms a by (auto simp: tick_def Let_def split: option.splits)
  obtain f g3 where c: "frand g2 = (f, g3)"
    by (cases "frand g2") auto
  obtain f' g4 where d: "frand g3 = (f', g4)"
    by (cases "frand g3") auto
  define mid where "mid = \<lparr>x0 = real_of_int (winW s) * 0.30, x1 = real_of_int (winW s) * 0.70,
      e_y = real_of_int (winH s) * 0.45 + f' * 50, rate = 1.0\<rparr>"
  define P3 where "P3 = (if f < seed_threshold ?dt then fst (spawnPuff P2 mid (winW s) (winH s) g4) else P2)"
  have eq: "puffs s' = updatePuffs P3 ?dt (breeze s) (winW s) (winH s)"
    using assms a b c d by (auto simp: tick_def Let_def P3_def mid_def case_prod_beta)
  have ok: "whiten_ok P3" if h: "whiten_ok (puffs s)"
  proof -
    have "whiten_ok P1"
      using emitter_tick_whiten_ok [OF a h] .
    then have "whiten_ok P2"
      using emitter_tick_whiten_ok [OF b] by simp
    then show ?thesis
      unfolding P3_def by (simp add: spawnPuff_whiten_ok)
  qed
  show ?thesis
    using eq ok by blast
qed

lemma tick_whiten_ok: "tick s now = Some s' \<Longrightarrow> whiten_ok (puffs s')"
  using tick_update_input [of s now s'] updatePuffs_whiten_ok by metis

lemma handle_event_puffs: "puffs (handle_event s ev) = puffs s"
  by (cases ev) (auto simp: handle_event_def handle_key_def Let_def split: SDL_Keycode.splits)

lemma poll_events_puffs: "puffs (poll_events s evs) = puffs s"
  unfolding poll_events_def
  by (induction evs arbitrary: s) (simp_all add: handle_event_puffs)

lemma main_loop_whiten_ok: "whiten_ok (puffs s) \<Longrightarrow> whiten_ok (puffs (main_loop s fs))"
proof (induction fs arbitrary: s)
  case Nil
  then show ?case by simp
next
  case (Cons f fs)
  show ?case
  proof (cases "frame s f")
    case None
    then show ?thesis
      using Cons.prems by (simp add: poll_events_puffs)
  next
    case (Some s')
    then have "whiten_ok (puffs s')"
      by (simp add: frame_def tick_whiten_ok)
    then show ?thesis
      using Some Cons by simp
  qed
qed

lemma program_whiten_ok: "whiten_ok (puffs (main_loop (main_init t g) fs))"
  by (rule main_loop_whiten_ok) (simp add: main_init_def whiten_ok_def)

text \<open>
  The frame that makes \<open>main2\<close>: no emitter has a whole unit of credit yet, the mid-level
  seed draws 0 and fires, and the new puff is updated once, with \<open>dt = 0.033f\<close>.
\<close>

lemma main2_whiten: "map whiten (puffs main2) = [550158467 / 2684354560]"
proof -
  have cA: "credit_next 4 0 (4429185 / 134217728) < 1"
    by (simp add: credit_next_def fl32_eval)
  have cB: "credit_next (16 / 5) 0 (4429185 / 134217728) < 1"
    by (simp add: credit_next_def fl32_eval)
  have th: "seed_threshold (4429185 / 134217728) = 10630043 / 268435456"
    by (simp add: seed_threshold_def fl32_eval)
  have "tick (main_init 0 rng1) 500 \<noteq> None"
    by (simp add: tick_def main_init_def frame_dt_500 emitter_tick_def
        spawn_while_idle [OF cA] spawn_while_idle [OF cB] Let_def split: prod.splits)
  then obtain s' where s': "tick (main_init 0 rng1) 500 = Some s'"
    by blast
  then have m: "main2 = s'"
    by (simp add: main2_def frame_def poll_events_def main_init_def)
  have "map whiten (puffs s') = [550158467 / 2684354560]"
    using s'
    by (auto simp: tick_def main_init_def frame_dt_500 emitter_tick_def th
        spawn_while_idle [OF cA] spawn_while_idle [OF cB] Let_def frand_def rng1_def
        spawnPuff_def updatePuffs_def updatePuff_def removed_def heightNorm_def clampf_def
        wrap_x_def)
  then show ?thesis
    unfolding m .
qed

text \<open>
  Claim C6. After the update the whiteness is in \<open>[0, 1]\<close>, for every puff and every \<open>dt\<close>.
  For every puff that the program has, in any state that the main loop reaches, and every
  \<open>dt\<close> that is not negative, it is at least the whiteness before: \<open>spawnPuff\<close> sets 0.2,
  every update clamps to \<open>[0, 1]\<close>, so the whiteness before is at most 1, and nothing else
  writes the field. The whiteness grows by \<open>0.15 * dt\<close> until the clamp holds it at 1.
\<close>

theorem updatePuff_whiten:
  "0 \<le> whiten (updatePuff dt bz W H p) \<and> whiten (updatePuff dt bz W H p) \<le> 1
   \<and> (p \<in> set (puffs (main_loop (main_init t g) fs)) \<and> 0 \<le> dt \<longrightarrow>
        whiten p \<le> whiten (updatePuff dt bz W H p))
   \<and> (whiten p = 0.2 \<and> 0 \<le> dt \<longrightarrow> whiten p \<le> whiten (updatePuff dt bz W H p))
   \<and> (0 \<le> whiten p + dt * 0.15 \<and> whiten p + dt * 0.15 \<le> 1 \<longrightarrow>
        whiten (updatePuff dt bz W H p) = whiten p + dt * 0.15)
   \<and> (1 \<le> whiten p + dt * 0.15 \<longrightarrow> whiten (updatePuff dt bz W H p) = 1)
   \<and> whiten (last (fst (spawnPuff P E W H g'))) = 0.2
   \<and> whiten_ok (puffs (main_loop (main_init t g) fs))"
proof (intro conjI impI)
  show "0 \<le> whiten (updatePuff dt bz W H p)" and "whiten (updatePuff dt bz W H p) \<le> 1"
    by (simp_all add: updatePuff_whiten_eq clampf_def)
next
  assume h: "p \<in> set (puffs (main_loop (main_init t g) fs)) \<and> 0 \<le> dt"
  then have "whiten p \<le> 1"
    using program_whiten_ok [of t g fs] by (simp add: whiten_ok_def)
  moreover have "whiten p \<le> whiten p + dt * 0.15"
    using h by simp
  ultimately show "whiten p \<le> whiten (updatePuff dt bz W H p)"
    by (simp add: updatePuff_whiten_eq clampf_def max_def min_def)
next
  assume "whiten p = 0.2 \<and> 0 \<le> dt"
  then have "whiten p \<le> whiten p + dt * 0.15" "whiten p \<le> 1"
    by simp_all
  then show "whiten p \<le> whiten (updatePuff dt bz W H p)"
    by (simp add: updatePuff_whiten_eq clampf_def max_def min_def)
next
  assume "0 \<le> whiten p + dt * 0.15 \<and> whiten p + dt * 0.15 \<le> 1"
  then show "whiten (updatePuff dt bz W H p) = whiten p + dt * 0.15"
    by (simp add: updatePuff_whiten_eq clampf_def max_def min_def)
next
  assume "1 \<le> whiten p + dt * 0.15"
  then show "whiten (updatePuff dt bz W H p) = 1"
    by (simp add: updatePuff_whiten_eq clampf_def max_def min_def)
next
  show "whiten (last (fst (spawnPuff P E W H g'))) = 0.2"
    by (simp add: spawnPuff_last)
next
  show "whiten_ok (puffs (main_loop (main_init t g) fs))"
    by (rule program_whiten_ok)
qed

theorem updatePuff_whiten_witness:
  "hd (puffs main2) \<in> set (puffs (main_loop (main_init 0 rng1) [([], 500)]))
   \<and> (0::real) \<le> 0.033
   \<and> whiten (hd (puffs main2)) = 550158467 / 2684354560
   \<and> whiten (hd (puffs main2)) \<le> whiten (updatePuff 0.033 12 960 600 (hd (puffs main2)))
   \<and> whiten (updatePuff 0.033 12 960 600 (hd (puffs main2))) = 550158467 / 2684354560 + 0.00495
   \<and> whiten (updatePuff 0.033 12 960 600 (hd (puffs main2))) \<le> 1
   \<and> whiten puff0 = 0.2
   \<and> whiten (updatePuff 0.033 12 960 600 puff0) = 0.20495
   \<and> whiten (updatePuff 6 12 960 600 puff0) = 1"
proof -
  let ?p = "hd (puffs main2)"
  have ne: "puffs main2 \<noteq> []"
    using main2_whiten by auto
  then have m: "?p \<in> set (puffs (main_loop (main_init 0 rng1) [([], 500)]))"
    unfolding main2_def by simp
  have w: "whiten ?p = 550158467 / 2684354560"
    using main2_whiten ne by (cases "puffs main2") auto
  have w0: "whiten puff0 = 0.2"
    by (simp add: puff0_def)
  note i1 = updatePuff_whiten [where p = ?p and dt = "0.033" and bz = 12 and W = 960 and H = 600
      and t = 0 and g = rng1 and fs = "[([], 500)]"]
  note i2 = updatePuff_whiten [where p = puff0 and dt = "0.033" and bz = 12 and W = 960 and H = 600]
  note i3 = updatePuff_whiten [where p = puff0 and dt = 6 and bz = 12 and W = 960 and H = 600]
  from i1 m have a: "whiten ?p \<le> whiten (updatePuff 0.033 12 960 600 ?p)"
    by simp
  from i1 have "0 \<le> whiten ?p + 0.033 * 0.15 \<and> whiten ?p + 0.033 * 0.15 \<le> 1 \<longrightarrow>
      whiten (updatePuff 0.033 12 960 600 ?p) = whiten ?p + 0.033 * 0.15"
    by blast
  then have b: "whiten (updatePuff 0.033 12 960 600 ?p) = 550158467 / 2684354560 + 0.00495"
    unfolding w by simp
  from i1 have c: "whiten (updatePuff 0.033 12 960 600 ?p) \<le> 1"
    by blast
  from i2 have "0 \<le> whiten puff0 + 0.033 * 0.15 \<and> whiten puff0 + 0.033 * 0.15 \<le> 1 \<longrightarrow>
      whiten (updatePuff 0.033 12 960 600 puff0) = whiten puff0 + 0.033 * 0.15"
    by blast
  then have d: "whiten (updatePuff 0.033 12 960 600 puff0) = 0.20495"
    unfolding w0 by simp
  from i3 have "1 \<le> whiten puff0 + 6 * 0.15 \<longrightarrow> whiten (updatePuff 6 12 960 600 puff0) = 1"
    by blast
  then have e: "whiten (updatePuff 6 12 960 600 puff0) = 1"
    unfolding w0 by simp
  from m w a b c d e w0 show ?thesis
    by simp
qed

end
